theory Spec2Isabelle
  imports Main "HOL-Library.Word" "HOL-Library.Sublist"
begin

unbundle bit_operations_syntax

section \<open>Strings, errors and template sources\<close>

text \<open>
  A shallow embedding of the webpack loader of \<open>src/index.ts\<close>: the loader
  function with its two branches (precompile and render), the key derivation
  \<open>getTemplateHash\<close> and the loader class \<open>PathSupportingArrayLoader\<close>.
  The template engine, the host's loader context and the hash are collaborators; what
  they return is a parameter. Promises are settled from outside, by a list of stimuli,
  and everything the invocation does is recorded in a log.

  A JavaScript string is a sequence of 16-bit code units. \<open>js\<close> turns an ASCII
  literal of the source into such a sequence.
\<close>

type_synonym jschar = "16 word"
type_synonym jsstring = "jschar list"

definition js :: "string \<Rightarrow> jsstring" where
  "js s = map of_char s"

definition sq :: jschar where
  "sq = 0x27"

text \<open>Any value that is thrown, or that a promise is rejected with.\<close>

datatype error = Error string

text \<open>
  \<open>new TwingSource(code, name, path?)\<close>: the record keeps the three constructor
  arguments; the third is optional in the source.
\<close>

record TwingSource =
  getCode :: jsstring
  getName :: jsstring
  getResolvedName :: "jsstring option"

section \<open>Key derivation: \<open>getTemplateHash\<close>\<close>

text \<open>
  \<open>crypto-js\<close> word arrays: 32-bit words and the number of significant bytes.
  \<open>hex.stringify\<close> walks the significant bytes and emits two hexadecimal digits
  for each; \<open>toString16\<close> is \<open>Number.prototype.toString(16)\<close> on a
  non-negative integer. Reading a word past the end of the array gives
  \<open>undefined\<close>, which \<open>>>>\<close> turns into 0.
\<close>

record wordarray =
  words :: "32 word list"
  sigBytes :: nat

definition hexDigit :: "nat \<Rightarrow> jschar" where
  "hexDigit d = js ''0123456789abcdefghijklmnopqrstuvwxyz'' ! d"

fun toString16 :: "nat \<Rightarrow> jsstring" where
  "toString16 n =
     (if n < 16 then [hexDigit n] else toString16 (n div 16) @ [hexDigit (n mod 16)])"

definition wordAt :: "32 word list \<Rightarrow> nat \<Rightarrow> 32 word" where
  "wordAt ws k = (if k < length ws then ws ! k else 0)"

definition hexByte :: "wordarray \<Rightarrow> nat \<Rightarrow> jsstring" where
  "hexByte wa i =
     (let bite = drop_bit (24 - (i mod 4) * 8) (wordAt (words wa) (drop_bit 2 i)) AND 0xff
      in toString16 (unat (drop_bit 4 bite)) @ toString16 (unat (bite AND 0x0f)))"

definition hex_stringify :: "wordarray \<Rightarrow> jsstring" where
  "hex_stringify wa = concat (map (hexByte wa) [0..<sigBytes wa])"

text \<open>
  \<open>getTemplateHash\<close> closes over \<open>this.mode\<close>; the hash primitive
  (\<open>sha256\<close> of crypto-js) is a parameter.
\<close>

definition getTemplateHash ::
  "(jsstring \<Rightarrow> wordarray) \<Rightarrow> jsstring \<Rightarrow> jsstring \<Rightarrow> jsstring" where
  "getTemplateHash digest buildMode nm =
     (if buildMode \<noteq> js ''production'' then nm else hex_stringify (digest nm))"

definition isLowerHex :: "jschar \<Rightarrow> bool" where
  "isLowerHex c = (c \<in> set (js ''0123456789abcdef''))"

section \<open>String-literal encoding: \<open>JSON.stringify\<close> on a string\<close>

text \<open>
  \<open>JSON.stringify\<close> is a built-in of the language; on a string it is
  QuoteJSONString of ECMA-262: the seven characters of its table get their short
  escapes, other control characters and unpaired surrogates get \<open>\uXXXX\<close> with
  lower-case digits, a leading surrogate followed by a trailing one is copied as the
  pair, and every other code unit is copied.
\<close>

definition dq :: jschar where
  "dq = 0x22"

definition bs :: jschar where
  "bs = 0x5C"

definition isLeadingSurrogate :: "jschar \<Rightarrow> bool" where
  "isLeadingSurrogate c = (0xD800 \<le> c \<and> c \<le> 0xDBFF)"

definition isTrailingSurrogate :: "jschar \<Rightarrow> bool" where
  "isTrailingSurrogate c = (0xDC00 \<le> c \<and> c \<le> 0xDFFF)"

definition UnicodeEscape :: "jschar \<Rightarrow> jsstring" where
  "UnicodeEscape c =
     [bs, 0x75,
      hexDigit (unat (drop_bit 12 c)),
      hexDigit (unat (drop_bit 8 c AND 0x0f)),
      hexDigit (unat (drop_bit 4 c AND 0x0f)),
      hexDigit (unat (c AND 0x0f))]"

definition QuoteJSONUnit :: "jschar \<Rightarrow> jsstring" where
  "QuoteJSONUnit c =
     (if c = 0x08 then [bs, 0x62]
      else if c = 0x09 then [bs, 0x74]
      else if c = 0x0A then [bs, 0x6E]
      else if c = 0x0C then [bs, 0x66]
      else if c = 0x0D then [bs, 0x72]
      else if c = 0x22 then [bs, dq]
      else if c = 0x5C then [bs, bs]
      else if c < 0x20 \<or> isLeadingSurrogate c \<or> isTrailingSurrogate c then UnicodeEscape c
      else [c])"

fun QuoteJSONBody :: "jsstring \<Rightarrow> jsstring" where
  "QuoteJSONBody [] = []"
| "QuoteJSONBody [c] = QuoteJSONUnit c"
| "QuoteJSONBody (c # d # ds) =
     (if isLeadingSurrogate c \<and> isTrailingSurrogate d then c # d # QuoteJSONBody ds
      else QuoteJSONUnit c @ QuoteJSONBody (d # ds))"

definition JSON_stringify :: "jsstring \<Rightarrow> jsstring" where
  "JSON_stringify s = dq # QuoteJSONBody s @ [dq]"

section \<open>Loaders\<close>

text \<open>
  A loader of the template engine. The loader the environment was configured with is
  known only through its lookup function; the two other kinds are the ones the source
  constructs. A \<open>Map\<close> from names to template text is a partial function.
\<close>

type_synonym lookup = "jsstring \<Rightarrow> TwingSource \<Rightarrow> error + TwingSource"

datatype loader =
    Backing lookup
  | PathSupportingArrayLoader "jsstring \<rightharpoonup> jsstring"
  | TwingLoaderChain "loader list"

text \<open>
  Modelled from the spec: \<open>TwingLoaderArray.getSourceContext\<close> belongs to the
  template engine's library and is not among the sources. The spec's override loader
  holds in-memory entries by logical name; a name it holds is served from the entry, any
  other name is a failed lookup.
\<close>

definition TwingLoaderArray_getSourceContext ::
  "(jsstring \<rightharpoonup> jsstring) \<Rightarrow> jsstring \<Rightarrow> TwingSource \<Rightarrow> error + TwingSource" where
  "TwingLoaderArray_getSourceContext templates nm from =
     (case templates nm of
        None \<Rightarrow> Inl (Error ''Template is not defined.'')
      | Some text \<Rightarrow> Inr \<lparr>getCode = text, getName = nm, getResolvedName = None\<rparr>)"

text \<open>
  The override of the source, with the inherited lookup \<open>super\<close> as a
  parameter: await it (a failure is rethrown) and rebuild the source with the requested
  name as its third argument.
\<close>

definition PathSupportingArrayLoader_getSourceContext ::
  "lookup \<Rightarrow> jsstring \<Rightarrow> TwingSource \<Rightarrow> error + TwingSource" where
  "PathSupportingArrayLoader_getSourceContext super nm from =
     (case super nm from of
        Inl e \<Rightarrow> Inl e
      | Inr source \<Rightarrow>
          Inr \<lparr>getCode = getCode source, getName = getName source,
               getResolvedName = Some nm\<rparr>)"

text \<open>
  Modelled from the spec: \<open>TwingLoaderChain.getSourceContext\<close> belongs to the
  template engine's library and is not among the sources. The spec's loader chain is an
  ordered list of loaders; a lookup tries each in order and the first successful match
  wins; a name no earlier loader serves is forwarded to the last loader, whose result,
  failures included, is returned as it is.
\<close>

fun getSourceContext :: "loader \<Rightarrow> jsstring \<Rightarrow> TwingSource \<Rightarrow> error + TwingSource"
  and chain_getSourceContext ::
    "loader list \<Rightarrow> jsstring \<Rightarrow> TwingSource \<Rightarrow> error + TwingSource" where
  "getSourceContext (Backing f) nm from = f nm from"
| "getSourceContext (PathSupportingArrayLoader templates) nm from =
     PathSupportingArrayLoader_getSourceContext (TwingLoaderArray_getSourceContext templates)
       nm from"
| "getSourceContext (TwingLoaderChain ls) nm from = chain_getSourceContext ls nm from"
| "chain_getSourceContext [] nm from = Inl (Error ''Template is not defined.'')"
| "chain_getSourceContext [l] nm from = getSourceContext l nm from"
| "chain_getSourceContext (l # l' # ls) nm from =
     (case getSourceContext l nm from of
        Inr source \<Rightarrow> Inr source
      | Inl e \<Rightarrow> chain_getSourceContext (l' # ls) nm from)"

section \<open>The environment, the host and the collaborators\<close>

text \<open>
  The shared environment object: its active loader and its event listeners. The one
  kind of listener the source registers closes over the loader it resolves with.
\<close>

datatype handler = AddDependencyHandler loader

record environment =
  env_loader :: loader
  env_listeners :: "(jsstring \<times> handler) list"

text \<open>
  The options as \<open>getOptions\<close> and \<open>validateOptions\<close> leave them: a
  required string and an optional render context (\<open>undefined\<close> is \<open>None\<close>).
  The loader context is the \<open>this\<close> of the loader function; \<open>lc_options\<close>
  is what reading and validating the options gives, an exception or the options.
\<close>

record 'ctx options =
  environmentModulePath :: jsstring
  renderContext :: "'ctx option"

record 'ctx loader_context =
  lc_mode :: jsstring
  lc_resourcePath :: jsstring
  lc_options :: "error + 'ctx options"

text \<open>
  The functions the loader calls and does not define: path normalisation, the hash,
  \<open>require\<close> of the environment module, the engine's tokenizer, parser and
  compiler (each may throw), and \<open>setLoader\<close> (\<open>Some e\<close> when it throws).
\<close>

record ('tok, 'node) engine =
  slash :: "jsstring \<Rightarrow> jsstring"
  sha256 :: "jsstring \<Rightarrow> wordarray"
  require :: "jsstring \<Rightarrow> error + environment"
  tokenize :: "TwingSource \<Rightarrow> error + 'tok"
  parse :: "'tok \<Rightarrow> error + 'node"
  compile :: "'node \<Rightarrow> error + jsstring"
  setLoader :: "loader \<Rightarrow> error option"

section \<open>The state of one invocation\<close>

text \<open>
  What the invocation does that can be seen from outside, newest first:
  \<open>AddDependency\<close> is the call for the environment module path made before the
  branches split, \<open>TaskAddDependency i\<close> the call
  made by the \<open>i\<close>-th entry of \<open>addDependencyTasks\<close>, \<open>Callback\<close> a call
  of the asynchronous callback with an error or with the module text.
  \<open>VisitorFulfilled\<close> and \<open>RenderFulfilled\<close> mark the start of the two
  \<open>then\<close> continuations.
\<close>

datatype event =
    AddDependency jsstring
  | TaskAddDependency nat jsstring
  | Callback "error + jsstring"
  | Tokenize TwingSource
  | Parse
  | GetTemplateNames
  | VisitorFulfilled "jsstring list"
  | Compile
  | Push jsstring
  | SetLoader loader
  | On jsstring handler
  | Render jsstring
  | RenderFulfilled jsstring
  | TaskPushed nat jsstring

text \<open>An entry of \<open>addDependencyTasks\<close>: a promise, pending or settled.\<close>

datatype task = TaskPending jsstring TwingSource | TaskFulfilled jsstring | TaskRejected error

text \<open>
  What the invocation waits for: nothing, the visitor's promise (the continuation
  closes over the key and the parsed module), the render promise, or the
  \<open>Promise.all\<close> over the first \<open>n\<close> tasks inside the render continuation.
\<close>

datatype 'node waiting =
    Finished
  | AwaitVisitor jsstring 'node
  | AwaitRender
  | AwaitTasks jsstring nat

record 'node state =
  env :: "environment option"
  listening :: bool
  addDependencyTasks :: "task list"
  parts :: "jsstring list"
  waiting :: "'node waiting"
  log :: "event list"

definition initial :: "'node state" where
  "initial = \<lparr>env = None, listening = False, addDependencyTasks = [], parts = [],
     waiting = Finished, log = []\<rparr>"

definition emit :: "event \<Rightarrow> 'node state \<Rightarrow> 'node state" where
  "emit e st = st\<lparr>log := e # log st\<rparr>"

definition callback :: "error + jsstring \<Rightarrow> 'node state \<Rightarrow> 'node state" where
  "callback r st = emit (Callback r) (st\<lparr>waiting := Finished\<rparr>)"

definition push :: "jsstring \<Rightarrow> 'node state \<Rightarrow> 'node state" where
  "push t st = emit (Push t) (st\<lparr>parts := parts st @ [t]\<rparr>)"

text \<open>\<open>Array.prototype.join\<close>.\<close>

fun join :: "jsstring \<Rightarrow> jsstring list \<Rightarrow> jsstring" where
  "join sep [] = []"
| "join sep [x] = x"
| "join sep (x # y # ys) = x @ sep @ join sep (y # ys)"

section \<open>The text of the generated modules\<close>

definition envRequire :: "jsstring \<Rightarrow> jsstring" where
  "envRequire p = js ''const env = require('' @ [sq] @ p @ js ''');''"

definition templatesModule :: "jsstring \<Rightarrow> jsstring" where
  "templatesModule precompiledTemplate =
     js ''\<newline>                    const templatesModule = (() => {\<newline>                    const module = {\<newline>                        exports: undefined\<newline>                    };\<newline>\<newline>                    ''
     @ precompiledTemplate
     @ js ''\<newline>\<newline>                    return module.exports;\<newline>                    })();\<newline>                ''"

definition depRequire :: "jsstring \<Rightarrow> jsstring" where
  "depRequire p = js ''require('' @ [sq] @ p @ js ''');''"

definition registerTemplatesModule :: "jsstring \<Rightarrow> jsstring" where
  "registerTemplatesModule key =
     js ''env.registerTemplatesModule(templatesModule, '' @ [sq] @ key @ js ''');''"

definition renderTemplate :: "jsstring \<Rightarrow> jsstring" where
  "renderTemplate key =
     js ''\<newline>                    const renderTemplate = (context = {}) => {\<newline>                      const name = '' @ [sq]
     @ key
     @ js ''';\<newline>                      env.emit('template', name);\<newline>                      const template = env.loadedTemplates.get(name);\<newline>                      return template.render(context);\<newline>                    };\<newline>\<newline>                    module.exports = renderTemplate;\<newline>                ''"

definition renderedModule :: "jsstring \<Rightarrow> jsstring" where
  "renderedModule renderedTemplate =
     js ''module.exports = '' @ JSON_stringify renderedTemplate @ js '';''"

section \<open>The loader function\<close>

text \<open>
  The precompile branch up to the call of the visitor. The first part is pushed before
  anything can fail; a tokenizer or parser exception goes to the callback.
\<close>

definition precompile ::
  "('tok, 'node) engine \<Rightarrow> 'ctx loader_context \<Rightarrow> jsstring \<Rightarrow> jsstring \<Rightarrow> jsstring \<Rightarrow>
   'node state \<Rightarrow> 'node state" where
  "precompile E this source resPath envPath st =
     (let st1 = push (envRequire (slash E envPath)) st;
          key = getTemplateHash (sha256 E) (lc_mode this) resPath;
          sourceContext = \<lparr>getCode = source, getName = key, getResolvedName = None\<rparr>;
          st2 = emit (Tokenize sourceContext) st1
      in case tokenize E sourceContext of
           Inl error \<Rightarrow> callback (Inl error) st2
         | Inr tokenStream \<Rightarrow>
             (let st3 = emit Parse st2
              in case parse E tokenStream of
                   Inl error \<Rightarrow> callback (Inl error) st3
                 | Inr nodeModule \<Rightarrow>
                     (emit GetTemplateNames st3)\<lparr>waiting := AwaitVisitor key nodeModule\<rparr>))"

text \<open>
  The render branch up to the call of \<open>render\<close>: install the chain, read it back,
  subscribe the listener.
\<close>

definition render ::
  "('tok, 'node) engine \<Rightarrow> jsstring \<Rightarrow> jsstring \<Rightarrow> environment \<Rightarrow> 'node state \<Rightarrow> 'node state" where
  "render E source resPath environment st =
     (let twingLoader = env_loader environment;
          chain = TwingLoaderChain [PathSupportingArrayLoader [resPath \<mapsto> source], twingLoader]
      in case setLoader E chain of
           Some error \<Rightarrow> callback (Inl error) st
         | None \<Rightarrow>
             (let environment1 = environment\<lparr>env_loader := chain\<rparr>;
                  newLoader = env_loader environment1;
                  st1 = emit (SetLoader chain) (st\<lparr>env := Some environment1\<rparr>);
                  listener = AddDependencyHandler newLoader;
                  environment2 = environment1\<lparr>env_listeners :=
                    env_listeners environment1 @ [(js ''template'', listener)]\<rparr>;
                  st2 = emit (On (js ''template'') listener)
                    (st1\<lparr>env := Some environment2, listening := True\<rparr>)
              in (emit (Render resPath) st2)\<lparr>waiting := AwaitRender\<rparr>))"

text \<open>The synchronous part of the loader function.\<close>

definition start ::
  "('tok, 'node) engine \<Rightarrow> 'ctx loader_context \<Rightarrow> jsstring \<Rightarrow> 'node state" where
  "start E this source =
     (case lc_options this of
        Inl error \<Rightarrow> callback (Inl error) initial
      | Inr opts \<Rightarrow>
          (let resPath = slash E (lc_resourcePath this);
               envPath = environmentModulePath opts;
               st1 = emit (AddDependency (slash E envPath)) initial
           in case require E (slash E envPath) of
                Inl error \<Rightarrow> callback (Inl error) st1
              | Inr environment \<Rightarrow>
                  (let st2 = st1\<lparr>env := Some environment\<rparr>
                   in case renderContext opts of
                        None \<Rightarrow> precompile E this source resPath envPath st2
                      | Some ctx \<Rightarrow> render E source resPath environment st2)))"

text \<open>
  What happens later is driven from outside: the visitor's promise settles, the render
  promise settles, the environment emits \<open>template\<close>, the \<open>resolve\<close> promise
  of a task settles.
\<close>

datatype stimulus =
    VisitorSettles "error + jsstring list"
  | RenderSettles "error + jsstring"
  | Emit jsstring TwingSource
  | ResolveSettles nat "error + jsstring"

text \<open>The \<open>then\<close> continuation of the visitor's promise.\<close>

definition visitorThen ::
  "('tok, 'node) engine \<Rightarrow> jsstring \<Rightarrow> 'node \<Rightarrow> jsstring list \<Rightarrow> 'node state \<Rightarrow> 'node state" where
  "visitorThen E key nodeModule foundTemplateNames st =
     (let st1 = emit Compile (emit (VisitorFulfilled foundTemplateNames) st)
      in case compile E nodeModule of
           Inl error \<Rightarrow> callback (Inl error) st1
         | Inr precompiledTemplate \<Rightarrow>
             (let st2 = push (templatesModule precompiledTemplate) st1;
                  st3 = foldl (\<lambda>s foundTemplateName. push (depRequire (slash E foundTemplateName)) s)
                          st2 foundTemplateNames;
                  st4 = push (registerTemplatesModule key) st3;
                  st5 = push (renderTemplate key) st4
              in callback (Inr (join (js ''\<newline>'') (parts st5))) st5))"

definition isRejected :: "task \<Rightarrow> bool" where
  "isRejected t = (case t of TaskRejected e \<Rightarrow> True | _ \<Rightarrow> False)"

definition isFulfilled :: "task \<Rightarrow> bool" where
  "isFulfilled t = (case t of TaskFulfilled p \<Rightarrow> True | _ \<Rightarrow> False)"

text \<open>
  \<open>await Promise.all(...)\<close> inside the render continuation: it covers the tasks
  that were in the array when it was called. A rejected one sends its error to the
  callback; when all of them are fulfilled the module text goes to the callback;
  otherwise the continuation keeps waiting.
\<close>

definition awaitAll :: "'node state \<Rightarrow> 'node state" where
  "awaitAll st =
     (case waiting st of
        AwaitTasks renderedTemplate n \<Rightarrow>
          (case find isRejected (take n (addDependencyTasks st)) of
             Some (TaskRejected error) \<Rightarrow> callback (Inl error) st
           | Some _ \<Rightarrow> st
           | None \<Rightarrow>
               if list_all isFulfilled (take n (addDependencyTasks st))
               then callback (Inr (renderedModule renderedTemplate)) st
               else st)
      | _ \<Rightarrow> st)"

definition step :: "('tok, 'node) engine \<Rightarrow> 'node state \<Rightarrow> stimulus \<Rightarrow> 'node state" where
  "step E st s =
     (case s of
        VisitorSettles r \<Rightarrow>
          (case waiting st of
             AwaitVisitor key nodeModule \<Rightarrow>
               (case r of
                  Inl error \<Rightarrow> callback (Inl error) st
                | Inr foundTemplateNames \<Rightarrow> visitorThen E key nodeModule foundTemplateNames st)
           | _ \<Rightarrow> st)
      | RenderSettles r \<Rightarrow>
          (case waiting st of
             AwaitRender \<Rightarrow>
               (case r of
                  Inl error \<Rightarrow> callback (Inl error) st
                | Inr renderedTemplate \<Rightarrow>
                    awaitAll ((emit (RenderFulfilled renderedTemplate) st)
                      \<lparr>waiting := AwaitTasks renderedTemplate (length (addDependencyTasks st))\<rparr>))
           | _ \<Rightarrow> st)
      | Emit nm from \<Rightarrow>
          (if listening st
           then (emit (TaskPushed (length (addDependencyTasks st)) nm) st)
                  \<lparr>addDependencyTasks := addDependencyTasks st @ [TaskPending nm from]\<rparr>
           else st)
      | ResolveSettles i r \<Rightarrow>
          (if i < length (addDependencyTasks st)
           then (case addDependencyTasks st ! i of
                   TaskPending nm from \<Rightarrow>
                     (case r of
                        Inl error \<Rightarrow>
                          awaitAll (st\<lparr>addDependencyTasks :=
                            (addDependencyTasks st)[i := TaskRejected error]\<rparr>)
                      | Inr path \<Rightarrow>
                          awaitAll ((emit (TaskAddDependency i path) st)\<lparr>addDependencyTasks :=
                            (addDependencyTasks st)[i := TaskFulfilled path]\<rparr>))
                 | _ \<Rightarrow> st)
           else st))"

definition run :: "('tok, 'node) engine \<Rightarrow> 'node state \<Rightarrow> stimulus list \<Rightarrow> 'node state" where
  "run E st schedule = foldl (step E) st schedule"

text \<open>
  The whole invocation: the synchronous part, then the stimuli in the order they
  arrive.
\<close>

definition twing_loader ::
  "('tok, 'node) engine \<Rightarrow> 'ctx loader_context \<Rightarrow> jsstring \<Rightarrow> stimulus list \<Rightarrow> 'node state" where
  "twing_loader E this source schedule = run E (start E this source) schedule"

text \<open>What the host has received, oldest first.\<close>

definition callbacksOf :: "event list \<Rightarrow> (error + jsstring) list" where
  "callbacksOf lg = concat (map (\<lambda>e. case e of Callback r \<Rightarrow> [r] | _ \<Rightarrow> []) (rev lg))"

definition callbacks :: "'node state \<Rightarrow> (error + jsstring) list" where
  "callbacks st = callbacksOf (log st)"

definition dependenciesOf :: "event list \<Rightarrow> jsstring list" where
  "dependenciesOf lg =
     concat (map (\<lambda>e. case e of AddDependency p \<Rightarrow> [p] | TaskAddDependency i p \<Rightarrow> [p] | _ \<Rightarrow> [])
       (rev lg))"

definition dependencies :: "'node state \<Rightarrow> jsstring list" where
  "dependencies st = dependenciesOf (log st)"

text \<open>
  The text of a precompiled module, from the environment module path, the compiled
  code, the dependency paths and the key.
\<close>

definition precompiledModule ::
  "jsstring \<Rightarrow> jsstring \<Rightarrow> jsstring list \<Rightarrow> jsstring \<Rightarrow> jsstring" where
  "precompiledModule envPath precompiledTemplate deps key =
     join (js ''\<newline>'')
       ([envRequire envPath, templatesModule precompiledTemplate] @ map depRequire deps
        @ [registerTemplatesModule key, renderTemplate key])"

text \<open>
  Code generation: compiling, pushing a part after the first one, or handing a module
  text to the callback. \<open>earlier\<close> is what the log held before the event.
\<close>

definition codeGeneration :: "event \<Rightarrow> event list \<Rightarrow> bool" where
  "codeGeneration ev earlier =
     (ev = Compile \<or> (\<exists>t. ev = Push t \<and> (\<exists>t'. Push t' \<in> set earlier)) \<or>
      (\<exists>m. ev = Callback (Inr m)))"

definition visitorFirst :: "event list \<Rightarrow> bool" where
  "visitorFirst lg =
     (\<forall>ev earlier. suffix (ev # earlier) lg \<and> codeGeneration ev earlier \<longrightarrow>
        (\<exists>names. VisitorFulfilled names \<in> set earlier))"

section \<open>Invariants of the render branch\<close>

text \<open>
  \<open>joined lg\<close>: every call of the callback with a module text in the log
  \<open>lg\<close> (newest first) was made after the render promise was fulfilled, with the
  text of that rendering, and after every task pushed before the fulfilment had made its
  \<open>addDependency\<close> call.
\<close>

definition joined :: "event list \<Rightarrow> bool" where
  "joined lg =
     (\<forall>m earlier. suffix (Callback (Inr m) # earlier) lg \<longrightarrow>
        (\<exists>renderedTemplate before.
           suffix (RenderFulfilled renderedTemplate # before) earlier \<and>
           m = renderedModule renderedTemplate \<and>
           (\<forall>i nm. TaskPushed i nm \<in> set before \<longrightarrow>
              (\<exists>path. TaskAddDependency i path \<in> set earlier))))"

text \<open>
  The log and the task array agree: a pushed task is in the array, and a fulfilled task
  has made its call.
\<close>

definition tasksLogged :: "'node state \<Rightarrow> bool" where
  "tasksLogged st =
     ((\<forall>i nm. TaskPushed i nm \<in> set (log st) \<longrightarrow> i < length (addDependencyTasks st)) \<and>
      (\<forall>i p. i < length (addDependencyTasks st) \<and> addDependencyTasks st ! i = TaskFulfilled p \<longrightarrow>
         TaskAddDependency i p \<in> set (log st)))"

text \<open>
  While \<open>Promise.all\<close> is awaited over the first \<open>n\<close> tasks, the render
  promise has been fulfilled and the tasks pushed before that are among the first
  \<open>n\<close>.
\<close>

definition joinPending :: "'node state \<Rightarrow> bool" where
  "joinPending st =
     (\<forall>r n. waiting st = AwaitTasks r n \<longrightarrow>
        n \<le> length (addDependencyTasks st) \<and>
        (\<exists>before. suffix (RenderFulfilled r # before) (log st) \<and>
           (\<forall>i nm. TaskPushed i nm \<in> set before \<longrightarrow> i < n)))"

definition renderInv :: "'node state \<Rightarrow> bool" where
  "renderInv st =
     ((\<forall>key nodeModule. waiting st \<noteq> AwaitVisitor key nodeModule) \<and>
      tasksLogged st \<and> joinPending st \<and> joined (log st))"

text \<open>
  After the render promise was fulfilled with \<open>r\<close> while the array held \<open>n\<close>
  tasks: either the continuation still awaits them, none of them rejected and not all
  of them fulfilled, and the callback has not been called; or the callback has been
  called once with the module text; or it has been called once with an error and one of
  the \<open>n\<close> tasks is rejected.
\<close>

definition joinOutcome :: "jsstring \<Rightarrow> nat \<Rightarrow> 'node state \<Rightarrow> bool" where
  "joinOutcome r n st =
     (n \<le> length (addDependencyTasks st) \<and>
      ((waiting st = AwaitTasks r n \<and> callbacksOf (log st) = [] \<and>
        find isRejected (take n (addDependencyTasks st)) = None \<and>
        \<not> list_all isFulfilled (take n (addDependencyTasks st))) \<or>
       (waiting st = Finished \<and> callbacksOf (log st) = [Inr (renderedModule r)]) \<or>
       (waiting st = Finished \<and> (\<exists>e. callbacksOf (log st) = [Inl e]) \<and>
        (\<exists>i < n. isRejected (addDependencyTasks st ! i)))))"

section \<open>Reading the emitted string literal back\<close>

text \<open>
  The value of a double-quoted string literal of the language, for the escapes the
  encoding above can produce and the other single-character escapes: the text after the
  opening quote is read up to the closing quote; a backslash introduces a
  single-character escape or \<open>\uXXXX\<close>; a raw line feed or carriage return
  ends the literal with an error; any other code unit stands for itself. The result is
  the value and the text after the closing quote, or \<open>None\<close> for a text that
  is not such a literal. \<open>evalModule\<close> reads a module whose sole statement
  assigns a string literal to \<open>module.exports\<close>.
\<close>

definition hexValue :: "jschar \<Rightarrow> nat option" where
  "hexValue c =
     (if 0x30 \<le> c \<and> c \<le> 0x39 then Some (unat c - 0x30)
      else if 0x61 \<le> c \<and> c \<le> 0x66 then Some (unat c - 0x61 + 10)
      else if 0x41 \<le> c \<and> c \<le> 0x46 then Some (unat c - 0x41 + 10)
      else None)"

definition hex4Value :: "jschar \<Rightarrow> jschar \<Rightarrow> jschar \<Rightarrow> jschar \<Rightarrow> jschar option" where
  "hex4Value h1 h2 h3 h4 =
     (case (hexValue h1, hexValue h2, hexValue h3, hexValue h4) of
        (Some a, Some b, Some c, Some d) \<Rightarrow> Some (of_nat (((a * 16 + b) * 16 + c) * 16 + d))
      | _ \<Rightarrow> None)"

definition singleEscape :: "jschar \<Rightarrow> jschar option" where
  "singleEscape e =
     (if e = 0x62 then Some 0x08
      else if e = 0x74 then Some 0x09
      else if e = 0x6E then Some 0x0A
      else if e = 0x76 then Some 0x0B
      else if e = 0x66 then Some 0x0C
      else if e = 0x72 then Some 0x0D
      else if e = 0x22 then Some 0x22
      else if e = 0x27 then Some 0x27
      else if e = 0x5C then Some 0x5C
      else None)"

definition prepend :: "jschar \<Rightarrow> (jsstring \<times> jsstring) option \<Rightarrow> (jsstring \<times> jsstring) option" where
  "prepend c r = (case r of None \<Rightarrow> None | Some (v, rest) \<Rightarrow> Some (c # v, rest))"

fun stringLiteralBody :: "jsstring \<Rightarrow> (jsstring \<times> jsstring) option" where
  "stringLiteralBody [] = None"
| "stringLiteralBody (c # cs) =
     (if c = dq then Some ([], cs)
      else if c = 0x0A \<or> c = 0x0D then None
      else if c = bs then
        (case cs of
           [] \<Rightarrow> None
         | e # es \<Rightarrow>
             if e = 0x75 then
               (case es of
                  h1 # h2 # h3 # h4 # rest \<Rightarrow>
                    (case hex4Value h1 h2 h3 h4 of
                       None \<Rightarrow> None
                     | Some v \<Rightarrow> prepend v (stringLiteralBody rest))
                | _ \<Rightarrow> None)
             else
               (case singleEscape e of
                  None \<Rightarrow> None
                | Some v \<Rightarrow> prepend v (stringLiteralBody es)))
      else prepend c (stringLiteralBody cs))"

definition evalModule :: "jsstring \<Rightarrow> jsstring option" where
  "evalModule m =
     (if take 17 m = js ''module.exports = '' then
        (case drop 17 m of
           [] \<Rightarrow> None
         | q # body \<Rightarrow>
             if q = dq then
               (case stringLiteralBody body of
                  None \<Rightarrow> None
                | Some (v, rest) \<Rightarrow> if rest = js '';'' then Some v else None)
             else None)
      else None)"

section \<open>A sample engine and loader context\<close>

text \<open>
  Concrete collaborators for evaluating the loader: an environment with a backing loader
  that knows no template, a tokenizer that rejects the unterminated tag
  \<open>{% if\<close>, and a loader context in development mode for the template
  \<open>/t/a.twig\<close>.
\<close>

definition sampleEnvironment :: environment where
  "sampleEnvironment =
     \<lparr>env_loader = Backing (\<lambda>nm from. Inl (Error ''not found'')), env_listeners = []\<rparr>"

definition sampleEngine :: "(jsstring, jsstring) engine" where
  "sampleEngine =
     \<lparr>slash = (\<lambda>p. p),
      sha256 = (\<lambda>nm. \<lparr>words = [1, 2, 3, 4, 5, 6, 7, 8], sigBytes = 32\<rparr>),
      require = (\<lambda>p. Inr sampleEnvironment),
      tokenize = (\<lambda>s. if getCode s = js ''{% if'' then Inl (Error ''Unexpected end of template'')
                        else Inr (getCode s)),
      parse = (\<lambda>t. Inr t),
      compile = (\<lambda>n. Inr (js ''/* compiled */'')),
      setLoader = (\<lambda>l. None)\<rparr>"

definition sampleContext ::
  "(jsstring \<rightharpoonup> jsstring) option \<Rightarrow> (jsstring \<rightharpoonup> jsstring) loader_context" where
  "sampleContext rc =
     \<lparr>lc_mode = js ''development'', lc_resourcePath = js ''/t/a.twig'',
      lc_options = Inr \<lparr>environmentModulePath = js ''/env.js'', renderContext = rc\<rparr>\<rparr>"

definition noSource :: TwingSource where
  "noSource = \<lparr>getCode = [], getName = [], getResolvedName = None\<rparr>"

definition sampleChain :: loader where
  "sampleChain =
     TwingLoaderChain
       [PathSupportingArrayLoader [js ''/t/a.twig'' \<mapsto> js ''hello''],
        env_loader sampleEnvironment]"

section \<open>Properties of key derivation\<close>

lemma hexDigit_lower_all: "\<forall>d \<in> set [0..<16]. isLowerHex (hexDigit d)"
  by code_simp

lemma hexDigit_lower: "d < 16 \<Longrightarrow> isLowerHex (hexDigit d)"
  using hexDigit_lower_all by simp

lemma toString16_nibble: "n < 16 \<Longrightarrow> toString16 n = [hexDigit n]"
  by simp

lemma unat_low_nibble: "unat ((w :: 32 word) AND 0x0f) < 16"
proof -
  have "w AND 0x0f = take_bit 4 w"
    by (simp add: take_bit_eq_mask mask_eq_exp_minus_1)
  then have "unat (w AND 0x0f) = take_bit 4 (unat w)"
    by (simp add: unsigned_take_bit_eq)
  then show ?thesis
    by (simp add: take_bit_eq_mod)
qed

lemma unat_high_nibble: "unat (drop_bit 4 ((w :: 32 word) AND 0xff)) < 16"
proof -
  have "w AND 0xff = take_bit 8 w"
    by (simp add: take_bit_eq_mask mask_eq_exp_minus_1)
  then have "unat (drop_bit 4 (w AND 0xff)) = drop_bit 4 (take_bit 8 (unat w))"
    by (simp add: unat_drop_bit_eq unsigned_take_bit_eq)
  also have "\<dots> = (unat w mod 256) div 16"
    by (simp add: take_bit_eq_mod drop_bit_eq_div)
  also have "\<dots> < 16"
    by (simp add: less_mult_imp_div_less)
  finally show ?thesis .
qed

lemma hexByte_length: "length (hexByte wa i) = 2"
  unfolding hexByte_def Let_def
  by (simp only: toString16_nibble [OF unat_low_nibble]
      toString16_nibble [OF unat_high_nibble]) simp

lemma hexByte_lower: "c \<in> set (hexByte wa i) \<Longrightarrow> isLowerHex c"
  unfolding hexByte_def Let_def
  by (simp only: toString16_nibble [OF unat_low_nibble]
      toString16_nibble [OF unat_high_nibble])
    (auto intro: hexDigit_lower unat_low_nibble unat_high_nibble)

lemma hex_stringify_length: "length (hex_stringify wa) = 2 * sigBytes wa"
  by (simp add: hex_stringify_def length_concat comp_def hexByte_length sum_list_triv)

lemma hex_stringify_lower: "c \<in> set (hex_stringify wa) \<Longrightarrow> isLowerHex c"
  by (auto simp: hex_stringify_def dest: hexByte_lower)

lemma hexDigit_table_all: "\<forall>d \<in> set [0..<16]. hexDigit d = js ''0123456789abcdef'' ! d"
  by code_simp

lemma hexDigit_table: "d < 16 \<Longrightarrow> hexDigit d = js ''0123456789abcdef'' ! d"
  using hexDigit_table_all by simp

lemma unat_and_ff: "unat ((w :: 32 word) AND 0xff) = unat w mod 256"
proof -
  have "w AND 0xff = take_bit 8 w"
    by (simp add: take_bit_eq_mask mask_eq_exp_minus_1)
  then have "unat (w AND 0xff) = take_bit 8 (unat w)"
    by (simp add: unsigned_take_bit_eq)
  then show ?thesis
    by (simp add: take_bit_eq_mod)
qed

lemma unat_and_0f: "unat ((w :: 32 word) AND 0x0f) = unat w mod 16"
proof -
  have "w AND 0x0f = take_bit 4 w"
    by (simp add: take_bit_eq_mask mask_eq_exp_minus_1)
  then have "unat (w AND 0x0f) = take_bit 4 (unat w)"
    by (simp add: unsigned_take_bit_eq)
  then show ?thesis
    by (simp add: take_bit_eq_mod)
qed

lemma unat_drop_bit_32: "unat (drop_bit k (w :: 32 word)) = unat w div 2 ^ k"
proof -
  have "unat (drop_bit k w) = drop_bit k (unat w)"
    by (simp only: unat_drop_bit_eq)
  then show ?thesis
    by (simp add: drop_bit_eq_div)
qed

lemma hexByte_digits:
  "hexByte wa i =
     [hexDigit ((unat (wordAt (words wa) (i div 4)) div 2 ^ (24 - 8 * (i mod 4)) mod 256) div 16),
      hexDigit ((unat (wordAt (words wa) (i div 4)) div 2 ^ (24 - 8 * (i mod 4)) mod 256) mod 16)]"
proof -
  let ?w = "drop_bit (24 - (i mod 4) * 8) (wordAt (words wa) (drop_bit 2 i))"
  let ?B = "unat (wordAt (words wa) (i div 4)) div 2 ^ (24 - 8 * (i mod 4)) mod 256"
  have d: "drop_bit 2 i = i div 4"
    by (simp add: drop_bit_eq_div)
  have b: "unat (?w AND 0xff) = ?B"
    by (simp only: unat_and_ff unat_drop_bit_32 d mult.commute)
  have "unat (drop_bit 4 (?w AND 0xff)) = unat (?w AND 0xff) div 2 ^ 4"
    by (rule unat_drop_bit_32)
  then have hi: "unat (drop_bit 4 (?w AND 0xff)) = ?B div 16"
    unfolding b by simp
  have "unat ((?w AND 0xff) AND 0x0f) = unat (?w AND 0xff) mod 16"
    by (rule unat_and_0f)
  with b have lo: "unat ((?w AND 0xff) AND 0x0f) = ?B mod 16"
    by simp
  have h1: "?B div 16 < 16"
    by (simp add: less_mult_imp_div_less)
  have h2: "?B mod 16 < 16"
    by simp
  show ?thesis
    unfolding hexByte_def Let_def
    by (simp only: hi lo toString16_nibble [OF h1] toString16_nibble [OF h2] append_Cons append_Nil)
qed

lemma concat_pairs_nth:
  assumes "\<forall>j. length (f j) = 2" and "i < n"
  shows "concat (map f [0..<n]) ! (2 * i) = f i ! 0 \<and>
     concat (map f [0..<n]) ! (2 * i + 1) = f i ! 1"
  using assms(2)
proof (induction n)
  case 0
  then show ?case by simp
next
  case (Suc n)
  have l: "length (concat (map f [0..<n])) = 2 * n"
    using assms(1) by (simp add: length_concat comp_def sum_list_triv)
  show ?case
  proof (cases "i < n")
    case True
    with Suc.IH l show ?thesis
      by (simp add: nth_append)
  next
    case False
    with Suc.prems have "i = n" by simp
    with l show ?thesis
      by (simp add: nth_append)
  qed
qed

lemma hex_stringify_digits:
  assumes "i < sigBytes wa"
  shows "hex_stringify wa ! (2 * i) =
       hexDigit ((unat (wordAt (words wa) (i div 4)) div 2 ^ (24 - 8 * (i mod 4)) mod 256) div 16) \<and>
     hex_stringify wa ! (2 * i + 1) =
       hexDigit ((unat (wordAt (words wa) (i div 4)) div 2 ^ (24 - 8 * (i mod 4)) mod 256) mod 16)"
proof -
  have "\<forall>j. length (hexByte wa j) = 2"
    by (simp add: hexByte_length)
  note c = concat_pairs_nth [OF this assms]
  have "hexByte wa i ! 0 =
      hexDigit ((unat (wordAt (words wa) (i div 4)) div 2 ^ (24 - 8 * (i mod 4)) mod 256) div 16)"
    and "hexByte wa i ! 1 =
      hexDigit ((unat (wordAt (words wa) (i div 4)) div 2 ^ (24 - 8 * (i mod 4)) mod 256) mod 16)"
    by (simp_all add: hexByte_digits)
  with c show ?thesis
    unfolding hex_stringify_def by simp
qed

text \<open>
  C4. Key derivation is a total function of the build mode and the path. Outside
  production mode the key is the path itself. In production mode the key is the
  hexadecimal encoding of the digest the hash primitive returns for the path: it has two
  lower-case digits for each significant byte, and the digits at positions \<open>2i\<close>
  and \<open>2i + 1\<close> are the high and the low half of byte \<open>i\<close> of the
  digest (the bytes of each 32-bit word, most significant first). For a 32-byte digest
  (SHA-256) that is exactly 64 digits, whatever the path. As a function of its arguments
  it gives the same key for the same path on every call.
\<close>

theorem getTemplateHash_key:
  "(buildMode \<noteq> js ''production'' \<longrightarrow> getTemplateHash digest buildMode nm = nm) \<and>
   (buildMode = js ''production'' \<and> sigBytes (digest nm) = 32 \<longrightarrow>
      length (getTemplateHash digest buildMode nm) = 64 \<and>
      (\<forall>c \<in> set (getTemplateHash digest buildMode nm). isLowerHex c)) \<and>
   (buildMode = js ''production'' \<longrightarrow>
      length (getTemplateHash digest buildMode nm) = 2 * sigBytes (digest nm) \<and>
      (\<forall>c \<in> set (getTemplateHash digest buildMode nm). c \<in> set (js ''0123456789abcdef'')) \<and>
      (\<forall>i. i < sigBytes (digest nm) \<and> i div 4 < length (words (digest nm)) \<longrightarrow>
         getTemplateHash digest buildMode nm ! (2 * i) =
           js ''0123456789abcdef'' !
             ((unat (words (digest nm) ! (i div 4)) div 2 ^ (24 - 8 * (i mod 4)) mod 256) div 16) \<and>
         getTemplateHash digest buildMode nm ! (2 * i + 1) =
           js ''0123456789abcdef'' !
             ((unat (words (digest nm) ! (i div 4)) div 2 ^ (24 - 8 * (i mod 4)) mod 256) mod 16)))"
proof -
  have digits: "hex_stringify wa ! (2 * i) =
           js ''0123456789abcdef'' !
             ((unat (words wa ! (i div 4)) div 2 ^ (24 - 8 * (i mod 4)) mod 256) div 16) \<and>
         hex_stringify wa ! (2 * i + 1) =
           js ''0123456789abcdef'' !
             ((unat (words wa ! (i div 4)) div 2 ^ (24 - 8 * (i mod 4)) mod 256) mod 16)"
    if "i < sigBytes wa" and "i div 4 < length (words wa)" for wa i
  proof -
    let ?B = "unat (words wa ! (i div 4)) div 2 ^ (24 - 8 * (i mod 4)) mod 256"
    have h1: "?B div 16 < 16"
      by (simp add: less_mult_imp_div_less)
    have h2: "?B mod 16 < 16"
      by simp
    from hex_stringify_digits [OF that(1)] that(2) show ?thesis
      by (simp add: wordAt_def hexDigit_table [OF h1] hexDigit_table [OF h2])
  qed
  have lower: "c \<in> set (js ''0123456789abcdef'')" if "c \<in> set (hex_stringify wa)" for c wa
    using hex_stringify_lower [OF that] by (simp add: isLowerHex_def)
  show ?thesis
    using digits lower
    by (auto simp: getTemplateHash_def hex_stringify_length dest: hex_stringify_lower)
qed


theorem getTemplateHash_key_witness:
  "js ''development'' \<noteq> js ''production'' \<and>
   getTemplateHash (\<lambda>n. \<lparr>words = [1, 2, 3, 4, 5, 6, 7, 8], sigBytes = 32\<rparr>)
     (js ''development'') (js ''/t/a.twig'') = js ''/t/a.twig'' \<and>
   sigBytes ((\<lambda>n. \<lparr>words = [1, 2, 3, 4, 5, 6, 7, 8], sigBytes = 32\<rparr>) (js ''/t/a.twig'')) = 32 \<and>
   length (getTemplateHash (\<lambda>n. \<lparr>words = [1, 2, 3, 4, 5, 6, 7, 8], sigBytes = 32\<rparr>)
     (js ''production'') (js ''/t/a.twig'')) = 64 \<and>
   getTemplateHash (\<lambda>n. \<lparr>words = [1, 2, 3, 4, 5, 6, 7, 8], sigBytes = 32\<rparr>)
     (js ''production'') (js ''/t/a.twig'') ! (2 * 7) = 0x30 \<and>
   getTemplateHash (\<lambda>n. \<lparr>words = [1, 2, 3, 4, 5, 6, 7, 8], sigBytes = 32\<rparr>)
     (js ''production'') (js ''/t/a.twig'') ! (2 * 7 + 1) = 0x32"
proof -
  let ?d = "\<lambda>n :: jsstring. \<lparr>words = [1, 2, 3, 4, 5, 6, 7, 8], sigBytes = 32\<rparr>"
  note dev = getTemplateHash_key [of "js ''development''" ?d "js ''/t/a.twig''", THEN conjunct1]
  note len = getTemplateHash_key [of "js ''production''" ?d "js ''/t/a.twig''",
      THEN conjunct2, THEN conjunct1]
  note dig = getTemplateHash_key [of "js ''production''" ?d "js ''/t/a.twig''",
      THEN conjunct2, THEN conjunct2, THEN mp, OF refl, THEN conjunct2, THEN conjunct2,
      THEN spec, of 7]
  have n: "js ''development'' \<noteq> js ''production''"
    by (simp add: js_def)
  have a: "getTemplateHash ?d (js ''development'') (js ''/t/a.twig'') = js ''/t/a.twig''"
    using dev n by blast
  have b: "length (getTemplateHash ?d (js ''production'') (js ''/t/a.twig'')) = 64"
    using len by simp
  have c: "getTemplateHash ?d (js ''production'') (js ''/t/a.twig'') ! (2 * 7) = 0x30 \<and>
      getTemplateHash ?d (js ''production'') (js ''/t/a.twig'') ! (2 * 7 + 1) = 0x32"
    using dig by (simp add: js_def)
  from n a b c show ?thesis
    by simp
qed

section \<open>Basic facts about the state\<close>

lemma emit_simps [simp]:
  "log (emit e st) = e # log st"
  "env (emit e st) = env st"
  "listening (emit e st) = listening st"
  "addDependencyTasks (emit e st) = addDependencyTasks st"
  "parts (emit e st) = parts st"
  "waiting (emit e st) = waiting st"
  by (simp_all add: emit_def)

lemma callback_simps [simp]:
  "log (callback r st) = Callback r # log st"
  "env (callback r st) = env st"
  "listening (callback r st) = listening st"
  "addDependencyTasks (callback r st) = addDependencyTasks st"
  "parts (callback r st) = parts st"
  "waiting (callback r st) = Finished"
  by (simp_all add: callback_def)

lemma push_simps [simp]:
  "log (push t st) = Push t # log st"
  "env (push t st) = env st"
  "listening (push t st) = listening st"
  "addDependencyTasks (push t st) = addDependencyTasks st"
  "parts (push t st) = parts st @ [t]"
  "waiting (push t st) = waiting st"
  by (simp_all add: push_def)

lemma foldl_push:
  "log (foldl (\<lambda>s n. push (f n) s) st ns) = rev (map (\<lambda>n. Push (f n)) ns) @ log st"
  "env (foldl (\<lambda>s n. push (f n) s) st ns) = env st"
  "listening (foldl (\<lambda>s n. push (f n) s) st ns) = listening st"
  "addDependencyTasks (foldl (\<lambda>s n. push (f n) s) st ns) = addDependencyTasks st"
  "parts (foldl (\<lambda>s n. push (f n) s) st ns) = parts st @ map f ns"
  "waiting (foldl (\<lambda>s n. push (f n) s) st ns) = waiting st"
  by (induction ns arbitrary: st; simp)+

lemma visitorThen_fields:
  "env (visitorThen E key node names st) = env st"
  "listening (visitorThen E key node names st) = listening st"
  "addDependencyTasks (visitorThen E key node names st) = addDependencyTasks st"
  "waiting (visitorThen E key node names st) = Finished"
  by (simp_all add: visitorThen_def Let_def foldl_push split: sum.splits)

lemma awaitAll_fields:
  "env (awaitAll st) = env st"
  "listening (awaitAll st) = listening st"
  "addDependencyTasks (awaitAll st) = addDependencyTasks st"
  by (simp_all add: awaitAll_def split: waiting.splits option.splits task.splits)

lemma step_env: "env (step E st s) = env st"
  by (simp add: step_def visitorThen_fields awaitAll_fields
      split: stimulus.splits waiting.splits sum.splits task.splits)

lemma step_listening: "listening (step E st s) = listening st"
  by (simp add: step_def visitorThen_fields awaitAll_fields
      split: stimulus.splits waiting.splits sum.splits task.splits)

lemma run_env: "env (run E st sched) = env st"
  unfolding run_def by (induction sched arbitrary: st) (simp_all add: step_env)

lemma run_listening: "listening (run E st sched) = listening st"
  unfolding run_def by (induction sched arbitrary: st) (simp_all add: step_listening)

lemma run_Nil [simp]: "run E st [] = st"
  by (simp add: run_def)

lemma run_Cons [simp]: "run E st (s # sched) = run E (step E st s) sched"
  by (simp add: run_def)

lemma run_append: "run E st (xs @ ys) = run E (run E st xs) ys"
  by (simp add: run_def)

lemma step_quiet:
  "\<not> listening st \<Longrightarrow> addDependencyTasks st = [] \<Longrightarrow> waiting st = Finished \<Longrightarrow> step E st s = st"
  by (simp add: step_def split: stimulus.splits)

lemma run_quiet:
  "\<not> listening st \<Longrightarrow> addDependencyTasks st = [] \<Longrightarrow> waiting st = Finished \<Longrightarrow> run E st sched = st"
  by (induction sched) (simp_all add: step_quiet)

lemma step_await_visitor:
  "\<not> listening st \<Longrightarrow> addDependencyTasks st = [] \<Longrightarrow> waiting st = AwaitVisitor key node \<Longrightarrow>
   \<forall>r. s \<noteq> VisitorSettles r \<Longrightarrow> step E st s = st"
  by (simp add: step_def split: stimulus.splits)

lemma run_await_visitor:
  "\<not> listening st \<Longrightarrow> addDependencyTasks st = [] \<Longrightarrow> waiting st = AwaitVisitor key node \<Longrightarrow>
   \<forall>s \<in> set pre. \<forall>r. s \<noteq> VisitorSettles r \<Longrightarrow> run E st pre = st"
  by (induction pre) (simp_all add: step_await_visitor)

section \<open>The precompile branch\<close>

lemma start_precompile:
  assumes "lc_options this = Inr opts" and "renderContext opts = None"
    and "require E (slash E (environmentModulePath opts)) = Inr environment"
    and "key = getTemplateHash (sha256 E) (lc_mode this) (slash E (lc_resourcePath this))"
    and "sourceContext = \<lparr>getCode = source, getName = key, getResolvedName = None\<rparr>"
    and "tokenize E sourceContext = Inr tokenStream"
    and "parse E tokenStream = Inr nodeModule"
  shows "start E this source =
     \<lparr>env = Some environment, listening = False, addDependencyTasks = [],
      parts = [envRequire (slash E (environmentModulePath opts))],
      waiting = AwaitVisitor key nodeModule,
      log = [GetTemplateNames, Parse, Tokenize sourceContext,
             Push (envRequire (slash E (environmentModulePath opts))),
             AddDependency (slash E (environmentModulePath opts))]\<rparr>"
  using assms
  by (simp add: start_def precompile_def Let_def initial_def emit_def push_def)

lemma visitorThen_parts:
  assumes "compile E nodeModule = Inr precompiledTemplate"
  shows "parts (visitorThen E key nodeModule names st) =
     parts st @ [templatesModule precompiledTemplate] @ map (\<lambda>n. depRequire (slash E n)) names
       @ [registerTemplatesModule key, renderTemplate key]"
  using assms by (simp add: visitorThen_def Let_def foldl_push)

lemma visitorThen_log:
  assumes "compile E nodeModule = Inr precompiledTemplate"
  shows "log (visitorThen E key nodeModule names st) =
     Callback (Inr (join (js ''\<newline>'') (parts (visitorThen E key nodeModule names st))))
     # Push (renderTemplate key) # Push (registerTemplatesModule key)
     # rev (map (\<lambda>n. Push (depRequire (slash E n))) names)
     @ Push (templatesModule precompiledTemplate) # Compile # VisitorFulfilled names # log st"
  using assms by (simp add: visitorThen_def Let_def foldl_push)

lemma callbacksOf_simps [simp]:
  "callbacksOf [] = []"
  "callbacksOf (Callback r # lg) = callbacksOf lg @ [r]"
  "callbacksOf (AddDependency p # lg) = callbacksOf lg"
  "callbacksOf (TaskAddDependency i p # lg) = callbacksOf lg"
  "callbacksOf (Tokenize sc # lg) = callbacksOf lg"
  "callbacksOf (Parse # lg) = callbacksOf lg"
  "callbacksOf (GetTemplateNames # lg) = callbacksOf lg"
  "callbacksOf (VisitorFulfilled ns # lg) = callbacksOf lg"
  "callbacksOf (Compile # lg) = callbacksOf lg"
  "callbacksOf (Push t # lg) = callbacksOf lg"
  "callbacksOf (SetLoader l # lg) = callbacksOf lg"
  "callbacksOf (On n h # lg) = callbacksOf lg"
  "callbacksOf (Render p # lg) = callbacksOf lg"
  "callbacksOf (RenderFulfilled t # lg) = callbacksOf lg"
  "callbacksOf (TaskPushed i n # lg) = callbacksOf lg"
  by (simp_all add: callbacksOf_def)

lemma callbacksOf_pushes [simp]:
  "callbacksOf (rev (map (\<lambda>n. Push (f n)) ns) @ lg) = callbacksOf lg"
  by (induction ns rule: rev_induct) simp_all

lemma callbacks_eq: "callbacks st = callbacksOf (log st)"
  by (simp add: callbacks_def)

lemma js_neq: "js ''development'' \<noteq> js ''production''"
  by (simp add: js_def)

lemma sampleEngine_simps [simp]:
  "slash sampleEngine p = p"
  "require sampleEngine p = Inr sampleEnvironment"
  "parse sampleEngine t = Inr t"
  "compile sampleEngine n = Inr (js ''/* compiled */'')"
  "setLoader sampleEngine l = None"
  "sigBytes (sha256 sampleEngine nm) = 32"
  by (simp_all add: sampleEngine_def)

lemma sampleEngine_tokenize:
  "tokenize sampleEngine s =
     (if getCode s = js ''{% if'' then Inl (Error ''Unexpected end of template'')
      else Inr (getCode s))"
  by (simp add: sampleEngine_def)

lemma sampleContext_simps [simp]:
  "lc_mode (sampleContext rc) = js ''development''"
  "lc_resourcePath (sampleContext rc) = js ''/t/a.twig''"
  "lc_options (sampleContext rc) = Inr \<lparr>environmentModulePath = js ''/env.js'', renderContext = rc\<rparr>"
  by (simp_all add: sampleContext_def)

lemma join_butlast:
  "xs \<noteq> [] \<Longrightarrow> join sep xs = concat (map (\<lambda>p. p @ sep) (butlast xs)) @ last xs"
  by (induction sep xs rule: join.induct) simp_all

text \<open>
  C1. In precompile mode, when the options are read, the environment is loaded, the
  template tokenizes, parses and compiles, and the visitor's promise is fulfilled with
  the names it found, the parts of the generated module are, in this order: the
  \<open>require\<close> of the environment module path, the function expression that wraps
  the compiled code and is called at once, one \<open>require\<close> for each name the
  visitor found, in the visitor's order, the registration under the template's key, and
  the exported render function. There are exactly as many dependency requires as the
  visitor found names, each at a position before the registration; the text handed to
  the callback is these parts with a newline after each but the last. The statement
  gives the text of every part.
\<close>

theorem precompile_module_order:
  assumes "lc_options this = Inr opts" and "renderContext opts = None"
    and "require E (slash E (environmentModulePath opts)) = Inr environment"
    and "key = getTemplateHash (sha256 E) (lc_mode this) (slash E (lc_resourcePath this))"
    and "tokenize E \<lparr>getCode = source, getName = key, getResolvedName = None\<rparr> = Inr tokenStream"
    and "parse E tokenStream = Inr nodeModule"
    and "compile E nodeModule = Inr precompiledTemplate"
    and "\<forall>s \<in> set pre. \<forall>r. s \<noteq> VisitorSettles r"
    and "final = twing_loader E this source (pre @ VisitorSettles (Inr names) # rest)"
  shows "parts final =
       [js ''const env = require('' @ [sq] @ slash E (environmentModulePath opts) @ js ''');'',
        js ''\<newline>                    const templatesModule = (() => {\<newline>                    const module = {\<newline>                        exports: undefined\<newline>                    };\<newline>\<newline>                    '' @ precompiledTemplate @ js ''\<newline>\<newline>                    return module.exports;\<newline>                    })();\<newline>                '']
       @ map (\<lambda>n. js ''require('' @ [sq] @ slash E n @ js ''');'') names
       @ [js ''env.registerTemplatesModule(templatesModule, '' @ [sq] @ key @ js ''');'',
          js ''\<newline>                    const renderTemplate = (context = {}) => {\<newline>                      const name = '' @ [sq] @ key @ js ''';\<newline>                      env.emit('template', name);\<newline>                      const template = env.loadedTemplates.get(name);\<newline>                      return template.render(context);\<newline>                    };\<newline>\<newline>                    module.exports = renderTemplate;\<newline>                ''] \<and>
     callbacks final =
       [Inr (concat (map (\<lambda>p. p @ js ''\<newline>'') (butlast (parts final))) @ last (parts final))] \<and>
     length (parts final) = length names + 4 \<and>
     (\<forall>i < length names.
        parts final ! (2 + i) = js ''require('' @ [sq] @ slash E (names ! i) @ js ''');'') \<and>
     parts final ! (2 + length names) =
       js ''env.registerTemplatesModule(templatesModule, '' @ [sq] @ key @ js ''');''"
proof -
  let ?st0 = "start E this source"
  let ?st1 = "visitorThen E key nodeModule names ?st0"
  have st0: "?st0 =
     \<lparr>env = Some environment, listening = False, addDependencyTasks = [],
      parts = [envRequire (slash E (environmentModulePath opts))],
      waiting = AwaitVisitor key nodeModule,
      log = [GetTemplateNames, Parse,
             Tokenize \<lparr>getCode = source, getName = key, getResolvedName = None\<rparr>,
             Push (envRequire (slash E (environmentModulePath opts))),
             AddDependency (slash E (environmentModulePath opts))]\<rparr>"
    using assms(1-6) by (rule start_precompile [OF _ _ _ _ refl])
  have pre: "run E ?st0 pre = ?st0"
    using assms(8) by (intro run_await_visitor [where key = key and node = nodeModule])
      (simp_all add: st0)
  have stp: "step E ?st0 (VisitorSettles (Inr names)) = ?st1"
    by (simp add: step_def st0)
  have rest: "run E ?st1 rest = ?st1"
    by (intro run_quiet) (simp_all add: visitorThen_fields st0)
  have final: "final = ?st1"
    using assms(9) by (simp add: twing_loader_def run_append pre stp rest)
  have p: "parts final =
       [envRequire (slash E (environmentModulePath opts)), templatesModule precompiledTemplate]
       @ map (\<lambda>n. depRequire (slash E n)) names
       @ [registerTemplatesModule key, renderTemplate key]"
    unfolding final by (simp add: visitorThen_parts [OF assms(7)] st0)
  have ne: "parts final \<noteq> []"
    unfolding p by simp
  have c: "callbacks final =
      [Inr (concat (map (\<lambda>p. p @ js ''\<newline>'') (butlast (parts final))) @ last (parts final))]"
    unfolding final callbacks_eq
    using ne [unfolded final]
    by (simp add: visitorThen_log [OF assms(7)] st0 join_butlast)
  have n: "\<forall>i < length names. parts final ! (2 + i) = depRequire (slash E (names ! i))"
    unfolding p by (simp add: nth_append)
  have r: "parts final ! (2 + length names) = registerTemplatesModule key"
    unfolding p by (simp add: nth_append)
  have l: "length (parts final) = length names + 4"
    unfolding p by simp
  from p c l n r show ?thesis
    unfolding envRequire_def templatesModule_def depRequire_def registerTemplatesModule_def
      renderTemplate_def
    by (simp only:)
qed

theorem precompile_module_order_witness:
  "lc_options (sampleContext None) =
     Inr \<lparr>environmentModulePath = js ''/env.js'', renderContext = None\<rparr> \<and>
   tokenize sampleEngine \<lparr>getCode = js ''hello'', getName = js ''/t/a.twig'',
     getResolvedName = None\<rparr> = Inr (js ''hello'') \<and>
   parts (twing_loader sampleEngine (sampleContext None) (js ''hello'')
     ([Emit (js ''x'') noSource] @ VisitorSettles (Inr [js ''/t/b.twig'', js ''/t/c.twig'']) # [])) =
     [js ''const env = require('' @ [sq] @ js ''/env.js'' @ js ''');'',
      js ''\<newline>                    const templatesModule = (() => {\<newline>                    const module = {\<newline>                        exports: undefined\<newline>                    };\<newline>\<newline>                    '' @ js ''/* compiled */'' @ js ''\<newline>\<newline>                    return module.exports;\<newline>                    })();\<newline>                '',
      js ''require('' @ [sq] @ js ''/t/b.twig'' @ js ''');'',
      js ''require('' @ [sq] @ js ''/t/c.twig'' @ js ''');'',
      js ''env.registerTemplatesModule(templatesModule, '' @ [sq] @ js ''/t/a.twig'' @ js ''');'',
      js ''\<newline>                    const renderTemplate = (context = {}) => {\<newline>                      const name = '' @ [sq] @ js ''/t/a.twig'' @ js ''';\<newline>                      env.emit('template', name);\<newline>                      const template = env.loadedTemplates.get(name);\<newline>                      return template.render(context);\<newline>                    };\<newline>\<newline>                    module.exports = renderTemplate;\<newline>                ''] \<and>
   callbacks (twing_loader sampleEngine (sampleContext None) (js ''hello'')
     ([Emit (js ''x'') noSource] @ VisitorSettles (Inr [js ''/t/b.twig'', js ''/t/c.twig'']) # [])) =
     [Inr (concat (map (\<lambda>p. p @ js ''\<newline>'') (butlast (parts (twing_loader sampleEngine (sampleContext None) (js ''hello'')
     ([Emit (js ''x'') noSource] @ VisitorSettles (Inr [js ''/t/b.twig'', js ''/t/c.twig'']) # [])))))
        @ last (parts (twing_loader sampleEngine (sampleContext None) (js ''hello'')
     ([Emit (js ''x'') noSource] @ VisitorSettles (Inr [js ''/t/b.twig'', js ''/t/c.twig'']) # []))))]"
proof -
  let ?opts = "\<lparr>environmentModulePath = js ''/env.js'',
    renderContext = (None :: (jsstring \<rightharpoonup> jsstring) option)\<rparr>"
  have h1: "lc_options (sampleContext None) = Inr ?opts"
    by simp
  have h2: "renderContext ?opts = None"
    by simp
  have h3: "require sampleEngine (slash sampleEngine (environmentModulePath ?opts)) =
      Inr sampleEnvironment"
    by simp
  have h4: "js ''/t/a.twig'' = getTemplateHash (sha256 sampleEngine)
      (lc_mode (sampleContext None)) (slash sampleEngine (lc_resourcePath (sampleContext None)))"
    by (simp add: getTemplateHash_def js_neq)
  have h5: "tokenize sampleEngine \<lparr>getCode = js ''hello'', getName = js ''/t/a.twig'',
      getResolvedName = None\<rparr> = Inr (js ''hello'')"
    by (simp add: sampleEngine_tokenize js_def)
  have h6: "parse sampleEngine (js ''hello'') = Inr (js ''hello'')"
    by simp
  have h7: "compile sampleEngine (js ''hello'') = Inr (js ''/* compiled */'')"
    by simp
  have h8: "\<forall>s \<in> set [Emit (js ''x'') noSource]. \<forall>r. s \<noteq> VisitorSettles r"
    by simp
  note t = precompile_module_order [OF h1 h2 h3 h4 h5 h6 h7 h8 refl,
      of "[js ''/t/b.twig'', js ''/t/c.twig'']" "[]"]
  from t have a: "parts (twing_loader sampleEngine (sampleContext None) (js ''hello'')
     ([Emit (js ''x'') noSource] @ VisitorSettles (Inr [js ''/t/b.twig'', js ''/t/c.twig'']) # [])) =
     [js ''const env = require('' @ [sq] @ js ''/env.js'' @ js ''');'',
      js ''\<newline>                    const templatesModule = (() => {\<newline>                    const module = {\<newline>                        exports: undefined\<newline>                    };\<newline>\<newline>                    '' @ js ''/* compiled */'' @ js ''\<newline>\<newline>                    return module.exports;\<newline>                    })();\<newline>                '',
      js ''require('' @ [sq] @ js ''/t/b.twig'' @ js ''');'',
      js ''require('' @ [sq] @ js ''/t/c.twig'' @ js ''');'',
      js ''env.registerTemplatesModule(templatesModule, '' @ [sq] @ js ''/t/a.twig'' @ js ''');'',
      js ''\<newline>                    const renderTemplate = (context = {}) => {\<newline>                      const name = '' @ [sq] @ js ''/t/a.twig'' @ js ''';\<newline>                      env.emit('template', name);\<newline>                      const template = env.loadedTemplates.get(name);\<newline>                      return template.render(context);\<newline>                    };\<newline>\<newline>                    module.exports = renderTemplate;\<newline>                '']"
    by simp
  from t have b: "callbacks (twing_loader sampleEngine (sampleContext None) (js ''hello'')
     ([Emit (js ''x'') noSource] @ VisitorSettles (Inr [js ''/t/b.twig'', js ''/t/c.twig'']) # [])) =
     [Inr (concat (map (\<lambda>p. p @ js ''\<newline>'') (butlast (parts (twing_loader sampleEngine (sampleContext None) (js ''hello'')
     ([Emit (js ''x'') noSource] @ VisitorSettles (Inr [js ''/t/b.twig'', js ''/t/c.twig'']) # [])))))
        @ last (parts (twing_loader sampleEngine (sampleContext None) (js ''hello'')
     ([Emit (js ''x'') noSource] @ VisitorSettles (Inr [js ''/t/b.twig'', js ''/t/c.twig'']) # []))))]"
    by (rule conjunct2 [THEN conjunct1])
  from a b h1 h5 show ?thesis
    by blast
qed

section \<open>Every run of the precompile branch\<close>

lemma dependenciesOf_simps [simp]:
  "dependenciesOf [] = []"
  "dependenciesOf (Callback r # lg) = dependenciesOf lg"
  "dependenciesOf (AddDependency p # lg) = dependenciesOf lg @ [p]"
  "dependenciesOf (TaskAddDependency i p # lg) = dependenciesOf lg @ [p]"
  "dependenciesOf (Tokenize sc # lg) = dependenciesOf lg"
  "dependenciesOf (Parse # lg) = dependenciesOf lg"
  "dependenciesOf (GetTemplateNames # lg) = dependenciesOf lg"
  "dependenciesOf (VisitorFulfilled ns # lg) = dependenciesOf lg"
  "dependenciesOf (Compile # lg) = dependenciesOf lg"
  "dependenciesOf (Push t # lg) = dependenciesOf lg"
  "dependenciesOf (SetLoader l # lg) = dependenciesOf lg"
  "dependenciesOf (On n h # lg) = dependenciesOf lg"
  "dependenciesOf (Render p # lg) = dependenciesOf lg"
  "dependenciesOf (RenderFulfilled t # lg) = dependenciesOf lg"
  "dependenciesOf (TaskPushed i n # lg) = dependenciesOf lg"
  by (simp_all add: dependenciesOf_def)

lemma dependenciesOf_pushes [simp]:
  "dependenciesOf (rev (map (\<lambda>n. Push (f n)) ns) @ lg) = dependenciesOf lg"
  by (induction ns rule: rev_induct) simp_all

lemma dependencies_eq: "dependencies st = dependenciesOf (log st)"
  by (simp add: dependencies_def)

lemma visitorFirst_Nil: "visitorFirst []"
  by (simp add: visitorFirst_def)

lemma visitorFirst_Cons:
  assumes "visitorFirst lg"
    and "codeGeneration e lg \<Longrightarrow> \<exists>names. VisitorFulfilled names \<in> set lg"
  shows "visitorFirst (e # lg)"
  unfolding visitorFirst_def
proof (intro allI impI, elim conjE)
  fix ev earlier
  assume s: "suffix (ev # earlier) (e # lg)" and g: "codeGeneration ev earlier"
  from s consider "ev # earlier = e # lg" | "suffix (ev # earlier) lg"
    by (auto simp: suffix_Cons)
  then show "\<exists>names. VisitorFulfilled names \<in> set earlier"
  proof cases
    case 1
    with g assms(2) show ?thesis by simp
  next
    case 2
    with g assms(1) show ?thesis by (auto simp: visitorFirst_def)
  qed
qed

lemma visitorFirst_plain:
  "visitorFirst lg \<Longrightarrow> \<not> codeGeneration e lg \<Longrightarrow> visitorFirst (e # lg)"
  by (rule visitorFirst_Cons) simp_all

lemma visitorFirst_after:
  "visitorFirst lg \<Longrightarrow> VisitorFulfilled names \<in> set lg \<Longrightarrow> visitorFirst (e # lg)"
  by (rule visitorFirst_Cons) auto

lemma visitorFirst_pushes:
  "visitorFirst lg \<Longrightarrow> VisitorFulfilled names \<in> set lg \<Longrightarrow>
   visitorFirst (rev (map (\<lambda>n. Push (f n)) ns) @ lg)"
  by (induction ns rule: rev_induct) (auto intro: visitorFirst_after)

lemma codeGeneration_simps [simp]:
  "codeGeneration Compile lg"
  "codeGeneration (Callback (Inr m)) lg"
  "\<not> codeGeneration (Callback (Inl e)) lg"
  "\<not> codeGeneration (AddDependency p) lg"
  "\<not> codeGeneration (Tokenize sc) lg"
  "\<not> codeGeneration Parse lg"
  "\<not> codeGeneration GetTemplateNames lg"
  "\<not> codeGeneration (VisitorFulfilled ns) lg"
  "codeGeneration (Push t) lg = (\<exists>t'. Push t' \<in> set lg)"
  by (auto simp: codeGeneration_def)

text \<open>The states the synchronous part of the precompile branch can end in.\<close>

lemma start_precompile_cases:
  assumes "lc_options this = Inr opts" and "renderContext opts = None"
  shows "\<not> listening (start E this source) \<and> addDependencyTasks (start E this source) = [] \<and>
     (waiting (start E this source) = Finished \<or>
      (\<exists>key nodeModule. waiting (start E this source) = AwaitVisitor key nodeModule)) \<and>
     visitorFirst (log (start E this source)) \<and>
     (\<forall>m. Inr m \<notin> set (callbacksOf (log (start E this source)))) \<and>
     dependenciesOf (log (start E this source)) = [slash E (environmentModulePath opts)]"
  using assms
  by (auto simp: start_def precompile_def Let_def initial_def emit_def push_def callback_def
      visitorFirst_Nil intro!: visitorFirst_plain split: sum.splits)

lemma run_precompile_cases:
  assumes "\<not> listening st" and "addDependencyTasks st = []"
    and "waiting st = AwaitVisitor key nodeModule"
  shows "run E st schedule = st \<or> (\<exists>e. run E st schedule = callback (Inl e) st) \<or>
     (\<exists>names. run E st schedule = visitorThen E key nodeModule names st)"
proof (cases "\<exists>s \<in> set schedule. \<exists>r. s = VisitorSettles r")
  case False
  then have "run E st schedule = st"
    using assms by (intro run_await_visitor [where key = key and node = nodeModule]) auto
  then show ?thesis by simp
next
  case True
  then obtain pre s rest where sp: "schedule = pre @ s # rest"
    and s: "\<exists>r. s = VisitorSettles r" and pre: "\<forall>x \<in> set pre. \<not> (\<exists>r. x = VisitorSettles r)"
    using split_list_first_prop [of schedule "\<lambda>s. \<exists>r. s = VisitorSettles r"] by blast
  from s obtain r where r: "s = VisitorSettles r" by blast
  have p: "run E st pre = st"
    using assms pre by (intro run_await_visitor [where key = key and node = nodeModule]) auto
  let ?st1 = "step E st (VisitorSettles r)"
  have q: "\<not> listening ?st1 \<and> addDependencyTasks ?st1 = [] \<and> waiting ?st1 = Finished"
    using assms by (simp add: step_def visitorThen_fields split: sum.splits)
  then have "run E ?st1 rest = ?st1"
    by (intro run_quiet) simp_all
  then have "run E st schedule = ?st1"
    by (simp add: sp r run_append p)
  moreover have "(\<exists>e. ?st1 = callback (Inl e) st) \<or>
     (\<exists>names. ?st1 = visitorThen E key nodeModule names st)"
    using assms by (cases r) (auto simp: step_def)
  ultimately show ?thesis by auto
qed

lemma visitorThen_log_cases:
  "(\<exists>e. log (visitorThen E key nodeModule names st) =
        Callback (Inl e) # Compile # VisitorFulfilled names # log st) \<or>
   (\<exists>code. compile E nodeModule = Inr code \<and>
      parts (visitorThen E key nodeModule names st) =
        parts st @ [templatesModule code] @ map (\<lambda>n. depRequire (slash E n)) names
          @ [registerTemplatesModule key, renderTemplate key] \<and>
      log (visitorThen E key nodeModule names st) =
        Callback (Inr (join (js ''\<newline>'') (parts (visitorThen E key nodeModule names st))))
        # Push (renderTemplate key) # Push (registerTemplatesModule key)
        # rev (map (\<lambda>n. Push (depRequire (slash E n))) names)
        @ Push (templatesModule code) # Compile # VisitorFulfilled names # log st)"
proof (cases "compile E nodeModule")
  case (Inl e)
  then show ?thesis by (simp add: visitorThen_def)
next
  case (Inr code)
  then show ?thesis
    using visitorThen_parts [OF Inr] visitorThen_log [OF Inr] by simp
qed

lemma visitorThen_visitorFirst:
  assumes "visitorFirst (log st)"
  shows "visitorFirst (log (visitorThen E key nodeModule names st))"
proof -
  let ?base = "Compile # VisitorFulfilled names # log st"
  have b: "visitorFirst ?base"
    using assms by (auto intro!: visitorFirst_Cons)
  have m: "VisitorFulfilled names \<in> set ?base"
    by simp
  from visitorThen_log_cases [of E key nodeModule names st] show ?thesis
  proof (elim disjE exE conjE)
    fix e
    assume "log (visitorThen E key nodeModule names st) = Callback (Inl e) # ?base"
    with b show ?thesis by (auto intro!: visitorFirst_plain)
  next
    fix code
    assume l: "log (visitorThen E key nodeModule names st) =
        Callback (Inr (join (js ''\<newline>'') (parts (visitorThen E key nodeModule names st))))
        # Push (renderTemplate key) # Push (registerTemplatesModule key)
        # rev (map (\<lambda>n. Push (depRequire (slash E n))) names)
        @ Push (templatesModule code) # ?base"
    have 1: "visitorFirst (Push (templatesModule code) # ?base)"
      using b m by (rule visitorFirst_after)
    have 2: "visitorFirst (rev (map (\<lambda>n. Push (depRequire (slash E n))) names)
        @ Push (templatesModule code) # ?base)"
      using 1 by (rule visitorFirst_pushes [where names = names]) simp
    show ?thesis
      unfolding l using 2 by (intro visitorFirst_after [where names = names]) simp_all
  qed
qed

lemma precompile_final_visitorFirst:
  assumes "lc_options this = Inr opts" and "renderContext opts = None"
  shows "visitorFirst (log (twing_loader E this source schedule))"
proof -
  let ?st = "start E this source"
  note s = start_precompile_cases [OF assms, of E source]
  from s have vf: "visitorFirst (log ?st)" by simp
  from s consider "waiting ?st = Finished"
    | key nodeModule where "waiting ?st = AwaitVisitor key nodeModule" by blast
  then show ?thesis
  proof cases
    case 1
    with s have "run E ?st schedule = ?st" by (intro run_quiet) simp_all
    with vf show ?thesis by (simp add: twing_loader_def)
  next
    case 2
    from s have q: "\<not> listening ?st" "addDependencyTasks ?st = []" by simp_all
    from run_precompile_cases [OF q 2, of E schedule] show ?thesis
      unfolding twing_loader_def
      using vf by (auto intro!: visitorFirst_plain visitorThen_visitorFirst)
  qed
qed

lemma sample_key:
  "js ''/t/a.twig'' = getTemplateHash (sha256 sampleEngine)
      (lc_mode (sampleContext rc)) (slash sampleEngine (lc_resourcePath (sampleContext rc)))"
  by (simp add: getTemplateHash_def js_neq)

lemma sample_tokenize:
  "tokenize sampleEngine \<lparr>getCode = js ''hello'', getName = js ''/t/a.twig'',
      getResolvedName = None\<rparr> = Inr (js ''hello'')"
  by (simp add: sampleEngine_tokenize js_def)

lemma sample_precompile_start:
  "start sampleEngine (sampleContext None) (js ''hello'') =
     \<lparr>env = Some sampleEnvironment, listening = False, addDependencyTasks = [],
      parts = [envRequire (js ''/env.js'')],
      waiting = AwaitVisitor (js ''/t/a.twig'') (js ''hello''),
      log = [GetTemplateNames, Parse,
             Tokenize \<lparr>getCode = js ''hello'', getName = js ''/t/a.twig'', getResolvedName = None\<rparr>,
             Push (envRequire (js ''/env.js'')),
             AddDependency (js ''/env.js'')]\<rparr>"
proof -
  have t: "tokenize sampleEngine \<lparr>getCode = js ''hello'', getName = js ''/t/a.twig'',
      getResolvedName = None\<rparr> = Inr (js ''hello'')"
    by (simp add: sampleEngine_tokenize js_def)
  have k: "js ''/t/a.twig'' = getTemplateHash (sha256 sampleEngine)
      (lc_mode (sampleContext None)) (slash sampleEngine (lc_resourcePath (sampleContext None)))"
    by (simp add: getTemplateHash_def js_neq)
  show ?thesis
    using start_precompile [of "sampleContext None" _ sampleEngine sampleEnvironment
        "js ''/t/a.twig''" _ "js ''hello''" "js ''hello''" "js ''hello''", OF _ _ _ k refl t]
    by simp
qed

lemma sample_precompile_log:
  "log (twing_loader sampleEngine (sampleContext None) (js ''hello'')
      [VisitorSettles (Inr [js ''/t/b.twig''])]) =
   [Callback (Inr (precompiledModule (js ''/env.js'') (js ''/* compiled */'') [js ''/t/b.twig'']
      (js ''/t/a.twig''))),
    Push (renderTemplate (js ''/t/a.twig'')),
    Push (registerTemplatesModule (js ''/t/a.twig'')),
    Push (depRequire (js ''/t/b.twig'')),
    Push (templatesModule (js ''/* compiled */'')),
    Compile,
    VisitorFulfilled [js ''/t/b.twig''],
    GetTemplateNames, Parse,
    Tokenize \<lparr>getCode = js ''hello'', getName = js ''/t/a.twig'', getResolvedName = None\<rparr>,
    Push (envRequire (js ''/env.js'')),
    AddDependency (js ''/env.js'')]"
  by (simp add: twing_loader_def sample_precompile_start step_def visitorThen_def Let_def
      precompiledModule_def)

lemma suffix_set: "suffix (x # xs) lg \<Longrightarrow> x \<in> set lg \<and> set xs \<subseteq> set lg"
  by (auto simp: suffix_def)

lemma start_precompile_no_visitor:
  assumes "lc_options this = Inr opts" and "renderContext opts = None"
  shows "VisitorFulfilled names \<notin> set (log (start E this source))"
  using assms
  by (auto simp: start_def precompile_def Let_def initial_def emit_def push_def callback_def
      split: sum.splits)

lemma visitorFirst_none:
  assumes "visitorFirst lg" and "\<forall>names. VisitorFulfilled names \<notin> set lg"
    and "suffix (ev # earlier) lg"
  shows "\<not> codeGeneration ev earlier"
proof
  assume "codeGeneration ev earlier"
  with assms(1,3) obtain names where "VisitorFulfilled names \<in> set earlier"
    unfolding visitorFirst_def by blast
  with suffix_set [OF assms(3)] assms(2) show False
    by blast
qed

lemma visitorThen_visitor_names:
  assumes "VisitorFulfilled n \<in> set (log (visitorThen E key nodeModule names st))"
    and "\<forall>names. VisitorFulfilled names \<notin> set (log st)"
  shows "n = names"
  using visitorThen_log_cases [of E key nodeModule names st] assms
  by auto

text \<open>
  C3. In precompile mode, whatever the schedule and whatever the collaborators do, an
  act of code generation in the log (the call of the compiler, the push of any part
  after the first one, the call of the callback with a module text) happens only when
  the schedule has delivered the fulfilment of the visitor's promise: the schedule
  splits at the first settlement of that promise, which is a fulfilment with a list of
  names; the event that marks the start of the continuation with exactly that list
  comes before the act; and in the run up to that settlement nothing was generated (the
  only part pushed is the \<open>require\<close> of the environment module). The log is
  newest first, so \<open>earlier\<close> is what happened before \<open>ev\<close>.
\<close>

theorem visitor_before_code_generation:
  assumes "lc_options this = Inr opts" and "renderContext opts = None"
    and "suffix (ev # earlier) (log (twing_loader E this source schedule))"
    and "ev = Compile \<or> (\<exists>t. ev = Push t \<and> (\<exists>t'. Push t' \<in> set earlier)) \<or>
         (\<exists>m. ev = Callback (Inr m))"
  shows "\<exists>pre names rest.
     schedule = pre @ VisitorSettles (Inr names) # rest \<and>
     (\<forall>s \<in> set pre. \<forall>r. s \<noteq> VisitorSettles r) \<and>
     VisitorFulfilled names \<in> set earlier \<and>
     (\<forall>ev' earlier'. suffix (ev' # earlier') (log (twing_loader E this source pre)) \<longrightarrow>
        \<not> (ev' = Compile \<or> (\<exists>t. ev' = Push t \<and> (\<exists>t'. Push t' \<in> set earlier')) \<or>
           (\<exists>m. ev' = Callback (Inr m))))"
proof -
  let ?st = "start E this source"
  note s = start_precompile_cases [OF assms(1,2), of E source]
  from s have vf: "visitorFirst (log ?st)" by simp
  have nv: "\<forall>names. VisitorFulfilled names \<notin> set (log ?st)"
    using start_precompile_no_visitor [OF assms(1,2)] by blast
  have cg: "codeGeneration ev earlier"
    using assms(4) by (simp add: codeGeneration_def)
  have quiet: "\<not> codeGeneration ev' earlier'" if "suffix (ev' # earlier') (log ?st)" for ev' earlier'
    using visitorFirst_none [OF vf nv that] .
  have notstart: "run E ?st schedule \<noteq> ?st"
    using quiet [of ev earlier] assms(3) cg by (auto simp: twing_loader_def)
  from s consider "waiting ?st = Finished"
    | key nodeModule where "waiting ?st = AwaitVisitor key nodeModule" by blast
  then show ?thesis
  proof cases
    case 1
    with s have "run E ?st schedule = ?st" by (intro run_quiet) simp_all
    with notstart show ?thesis by simp
  next
    case 2
    from s have q: "\<not> listening ?st" "addDependencyTasks ?st = []" by simp_all
    show ?thesis
    proof (cases "\<exists>x \<in> set schedule. \<exists>r. x = VisitorSettles r")
      case False
      then have "run E ?st schedule = ?st"
        using q 2 by (intro run_await_visitor [where key = key and node = nodeModule]) auto
      with notstart show ?thesis by simp
    next
      case True
      then obtain pre x rest where sp: "schedule = pre @ x # rest"
        and x: "\<exists>r. x = VisitorSettles r" and pre: "\<forall>y \<in> set pre. \<not> (\<exists>r. y = VisitorSettles r)"
        using split_list_first_prop [of schedule "\<lambda>s. \<exists>r. s = VisitorSettles r"] by blast
      from x obtain r where r: "x = VisitorSettles r" by blast
      from pre have pre': "\<forall>s \<in> set pre. \<forall>r. s \<noteq> VisitorSettles r" by blast
      have p: "run E ?st pre = ?st"
        using q 2 pre' by (intro run_await_visitor [where key = key and node = nodeModule])
      let ?st1 = "step E ?st (VisitorSettles r)"
      have "\<not> listening ?st1 \<and> addDependencyTasks ?st1 = [] \<and> waiting ?st1 = Finished"
        using q 2 by (simp add: step_def visitorThen_fields split: sum.splits)
      then have "run E ?st1 rest = ?st1"
        by (intro run_quiet) simp_all
      then have f: "twing_loader E this source schedule = ?st1"
        by (simp add: twing_loader_def sp r run_append p)
      show ?thesis
      proof (cases r)
        case (Inl e)
        then have l: "log ?st1 = Callback (Inl e) # log ?st"
          using 2 by (simp add: step_def)
        have "visitorFirst (log ?st1)"
          unfolding l using vf by (rule visitorFirst_plain) simp
        moreover have "\<forall>names. VisitorFulfilled names \<notin> set (log ?st1)"
          unfolding l using nv by simp
        ultimately have "\<not> codeGeneration ev earlier"
          using assms(3) unfolding f by (rule visitorFirst_none)
        with cg show ?thesis by simp
      next
        case (Inr names)
        then have st1: "?st1 = visitorThen E key nodeModule names ?st"
          using 2 by (simp add: step_def)
        have "visitorFirst (log ?st1)"
          unfolding st1 using vf by (rule visitorThen_visitorFirst)
        with assms(3) cg obtain n where n: "VisitorFulfilled n \<in> set earlier"
          unfolding f visitorFirst_def by blast
        with suffix_set [OF assms(3)] have "VisitorFulfilled n \<in> set (log ?st1)"
          unfolding f by blast
        then have "n = names"
          unfolding st1 using nv by (rule visitorThen_visitor_names)
        with n have 1: "VisitorFulfilled names \<in> set earlier" by simp
        have 2: "\<forall>ev' earlier'. suffix (ev' # earlier') (log (twing_loader E this source pre)) \<longrightarrow>
          \<not> (ev' = Compile \<or> (\<exists>t. ev' = Push t \<and> (\<exists>t'. Push t' \<in> set earlier')) \<or>
             (\<exists>m. ev' = Callback (Inr m)))"
          using quiet by (simp add: twing_loader_def p codeGeneration_def)
        from sp r Inr pre' 1 2 show ?thesis
          by blast
      qed
    qed
  qed
qed

theorem visitor_before_code_generation_witness:
  "lc_options (sampleContext None) =
     Inr \<lparr>environmentModulePath = js ''/env.js'', renderContext = None\<rparr> \<and>
   suffix
     (Compile #
      [VisitorFulfilled [js ''/t/b.twig''], GetTemplateNames, Parse,
       Tokenize \<lparr>getCode = js ''hello'', getName = js ''/t/a.twig'', getResolvedName = None\<rparr>,
       Push (envRequire (js ''/env.js'')), AddDependency (js ''/env.js'')])
     (log (twing_loader sampleEngine (sampleContext None) (js ''hello'')
        [VisitorSettles (Inr [js ''/t/b.twig''])])) \<and>
   (\<exists>pre names rest.
      [VisitorSettles (Inr [js ''/t/b.twig''])] = pre @ VisitorSettles (Inr names) # rest \<and>
      VisitorFulfilled names \<in> set
        [VisitorFulfilled [js ''/t/b.twig''], GetTemplateNames, Parse,
         Tokenize \<lparr>getCode = js ''hello'', getName = js ''/t/a.twig'', getResolvedName = None\<rparr>,
         Push (envRequire (js ''/env.js'')), AddDependency (js ''/env.js'')])"
proof -
  let ?earlier = "[VisitorFulfilled [js ''/t/b.twig''], GetTemplateNames, Parse,
       Tokenize \<lparr>getCode = js ''hello'', getName = js ''/t/a.twig'', getResolvedName = None\<rparr>,
       Push (envRequire (js ''/env.js'')), AddDependency (js ''/env.js'')]"
  let ?opts = "\<lparr>environmentModulePath = js ''/env.js'',
    renderContext = (None :: (jsstring \<rightharpoonup> jsstring) option)\<rparr>"
  have h1: "lc_options (sampleContext None) = Inr ?opts"
    by simp
  have h2: "renderContext ?opts = None"
    by simp
  have h3: "suffix (Compile # ?earlier)
     (log (twing_loader sampleEngine (sampleContext None) (js ''hello'')
        [VisitorSettles (Inr [js ''/t/b.twig''])]))"
    unfolding sample_precompile_log by (simp add: suffix_Cons)
  have h4: "Compile = Compile \<or> (\<exists>t. Compile = Push t \<and> (\<exists>t'. Push t' \<in> set ?earlier)) \<or>
      (\<exists>m. Compile = Callback (Inr m))"
    by simp
  from visitor_before_code_generation [OF h1 h2 h3 h4] h1 h3 show ?thesis
    by blast
qed



section \<open>Every run of the render branch\<close>

lemma joined_Nil: "joined []"
  by (simp add: joined_def)

lemma joined_Cons_other:
  assumes "joined lg" and "\<forall>m. e \<noteq> Callback (Inr m)"
  shows "joined (e # lg)"
  unfolding joined_def
proof (intro allI impI)
  fix m earlier
  assume "suffix (Callback (Inr m) # earlier) (e # lg)"
  with assms(2) have "suffix (Callback (Inr m) # earlier) lg"
    by (auto simp: suffix_Cons)
  with assms(1) show "\<exists>renderedTemplate before.
      suffix (RenderFulfilled renderedTemplate # before) earlier \<and>
      m = renderedModule renderedTemplate \<and>
      (\<forall>i nm. TaskPushed i nm \<in> set before \<longrightarrow> (\<exists>path. TaskAddDependency i path \<in> set earlier))"
    unfolding joined_def by blast
qed

lemma joined_Cons_callback:
  assumes "joined lg"
    and "suffix (RenderFulfilled r # before) lg"
    and "\<forall>i nm. TaskPushed i nm \<in> set before \<longrightarrow> (\<exists>path. TaskAddDependency i path \<in> set lg)"
  shows "joined (Callback (Inr (renderedModule r)) # lg)"
  unfolding joined_def
proof (intro allI impI)
  fix m earlier
  assume "suffix (Callback (Inr m) # earlier) (Callback (Inr (renderedModule r)) # lg)"
  then consider "m = renderedModule r" "earlier = lg" | "suffix (Callback (Inr m) # earlier) lg"
    by (auto simp: suffix_Cons)
  then show "\<exists>renderedTemplate before.
      suffix (RenderFulfilled renderedTemplate # before) earlier \<and>
      m = renderedModule renderedTemplate \<and>
      (\<forall>i nm. TaskPushed i nm \<in> set before \<longrightarrow> (\<exists>path. TaskAddDependency i path \<in> set earlier))"
  proof cases
    case 1
    with assms(2,3) show ?thesis by blast
  next
    case 2
    with assms(1) show ?thesis unfolding joined_def by blast
  qed
qed

lemma all_fulfilled:
  assumes "list_all isFulfilled (take n ts)" and "n \<le> length ts" and "i < n"
  shows "\<exists>p. ts ! i = TaskFulfilled p"
proof -
  from assms have "isFulfilled (take n ts ! i)"
    by (simp add: list_all_length)
  with assms(3) have "isFulfilled (ts ! i)"
    by simp
  then show ?thesis
    by (cases "ts ! i") (simp_all add: isFulfilled_def)
qed

lemma awaitAll_cases:
  "awaitAll st = st \<or>
   (\<exists>e. awaitAll st = callback (Inl e) st) \<or>
   (\<exists>r n. waiting st = AwaitTasks r n \<and> list_all isFulfilled (take n (addDependencyTasks st)) \<and>
      awaitAll st = callback (Inr (renderedModule r)) st)"
  by (auto simp: awaitAll_def split: waiting.splits option.splits task.splits)

lemma renderInv_callback_error:
  assumes "renderInv st"
  shows "renderInv (callback (Inl e) st)"
  using assms
  by (auto simp: renderInv_def tasksLogged_def joinPending_def intro: joined_Cons_other)

lemma renderInv_callback_module:
  assumes "renderInv st" and "waiting st = AwaitTasks r n"
    and "list_all isFulfilled (take n (addDependencyTasks st))"
  shows "renderInv (callback (Inr (renderedModule r)) st)"
proof -
  from assms(1,2) obtain before where n: "n \<le> length (addDependencyTasks st)"
    and s: "suffix (RenderFulfilled r # before) (log st)"
    and b: "\<forall>i nm. TaskPushed i nm \<in> set before \<longrightarrow> i < n"
    unfolding renderInv_def joinPending_def by blast
  have "\<forall>i nm. TaskPushed i nm \<in> set before \<longrightarrow> (\<exists>path. TaskAddDependency i path \<in> set (log st))"
  proof (intro allI impI)
    fix i nm
    assume "TaskPushed i nm \<in> set before"
    with b have i: "i < n" by blast
    with all_fulfilled [OF assms(3) n] obtain p where "addDependencyTasks st ! i = TaskFulfilled p"
      by blast
    with i n assms(1) have "TaskAddDependency i p \<in> set (log st)"
      unfolding renderInv_def tasksLogged_def by auto
    then show "\<exists>path. TaskAddDependency i path \<in> set (log st)" by blast
  qed
  with assms(1) s have "joined (Callback (Inr (renderedModule r)) # log st)"
    unfolding renderInv_def by (intro joined_Cons_callback) simp_all
  with assms(1) show ?thesis
    by (auto simp: renderInv_def tasksLogged_def joinPending_def)
qed

lemma renderInv_awaitAll:
  assumes "renderInv st"
  shows "renderInv (awaitAll st)"
  using awaitAll_cases [of st] assms
  by (auto intro: renderInv_callback_error renderInv_callback_module)

lemma renderInv_emit:
  assumes "renderInv st"
  shows "renderInv ((emit (TaskPushed (length (addDependencyTasks st)) nm) st)
     \<lparr>addDependencyTasks := addDependencyTasks st @ [TaskPending nm from]\<rparr>)"
proof -
  let ?st = "(emit (TaskPushed (length (addDependencyTasks st)) nm) st)
     \<lparr>addDependencyTasks := addDependencyTasks st @ [TaskPending nm from]\<rparr>"
  have 1: "tasksLogged ?st"
    using assms unfolding renderInv_def tasksLogged_def
    by (auto simp: nth_append less_Suc_eq)
  have 2: "joinPending ?st"
    using assms unfolding renderInv_def joinPending_def
    by (auto simp: suffix_Cons)
  have 3: "joined (log ?st)"
    using assms unfolding renderInv_def by (auto intro: joined_Cons_other)
  from assms 1 2 3 show ?thesis
    by (simp add: renderInv_def)
qed

lemma renderInv_rejected:
  assumes "renderInv st" and "i < length (addDependencyTasks st)"
    and "addDependencyTasks st ! i = TaskPending nm from"
  shows "renderInv (st\<lparr>addDependencyTasks := (addDependencyTasks st)[i := TaskRejected e]\<rparr>)"
  using assms unfolding renderInv_def tasksLogged_def joinPending_def
  by (auto simp: nth_list_update)

lemma renderInv_fulfilled:
  assumes "renderInv st" and "i < length (addDependencyTasks st)"
    and "addDependencyTasks st ! i = TaskPending nm from"
  shows "renderInv ((emit (TaskAddDependency i path) st)
     \<lparr>addDependencyTasks := (addDependencyTasks st)[i := TaskFulfilled path]\<rparr>)"
proof -
  let ?st = "(emit (TaskAddDependency i path) st)
     \<lparr>addDependencyTasks := (addDependencyTasks st)[i := TaskFulfilled path]\<rparr>"
  have 1: "tasksLogged ?st"
    using assms unfolding renderInv_def tasksLogged_def
    by (auto simp: nth_list_update)
  have 2: "joinPending ?st"
    using assms unfolding renderInv_def joinPending_def
    by (auto simp: suffix_Cons)
  have 3: "joined (log ?st)"
    using assms unfolding renderInv_def by (auto intro: joined_Cons_other)
  from assms 1 2 3 show ?thesis
    by (simp add: renderInv_def)
qed

lemma renderInv_render_fulfilled:
  assumes "renderInv st" and "waiting st = AwaitRender"
  shows "renderInv ((emit (RenderFulfilled r) st)
     \<lparr>waiting := AwaitTasks r (length (addDependencyTasks st))\<rparr>)"
proof -
  let ?st = "(emit (RenderFulfilled r) st)\<lparr>waiting := AwaitTasks r (length (addDependencyTasks st))\<rparr>"
  have 1: "tasksLogged ?st"
    using assms unfolding renderInv_def tasksLogged_def by auto
  have "suffix (RenderFulfilled r # log st) (log ?st)"
    by simp
  moreover have "\<forall>i nm. TaskPushed i nm \<in> set (log st) \<longrightarrow> i < length (addDependencyTasks st)"
    using assms unfolding renderInv_def tasksLogged_def by blast
  ultimately have 2: "joinPending ?st"
    unfolding joinPending_def by auto
  have 3: "joined (log ?st)"
    using assms unfolding renderInv_def by (auto intro: joined_Cons_other)
  from 1 2 3 show ?thesis
    by (simp add: renderInv_def)
qed

lemma renderInv_step:
  assumes "renderInv st"
  shows "renderInv (step E st s)"
proof (cases s)
  case (VisitorSettles r)
  with assms show ?thesis
    by (cases "waiting st") (simp_all add: step_def renderInv_def)
next
  case (RenderSettles r)
  show ?thesis
  proof (cases "waiting st = AwaitRender")
    case True
    with assms RenderSettles show ?thesis
      by (cases r)
        (simp_all add: step_def renderInv_callback_error renderInv_awaitAll
          renderInv_render_fulfilled)
  next
    case False
    with assms RenderSettles show ?thesis
      by (cases "waiting st") (simp_all add: step_def)
  qed
next
  case (Emit nm fr)
  with assms show ?thesis
    by (simp add: step_def renderInv_emit)
next
  case (ResolveSettles i r)
  show ?thesis
  proof (cases "i < length (addDependencyTasks st)")
    case False
    with assms ResolveSettles show ?thesis by (simp add: step_def)
  next
    case True
    show ?thesis
    proof (cases "addDependencyTasks st ! i")
      case (TaskPending nm fr)
      with assms True ResolveSettles show ?thesis
        by (cases r)
          (simp_all add: step_def renderInv_awaitAll renderInv_rejected renderInv_fulfilled)
    next
      case (TaskFulfilled p)
      with assms True ResolveSettles show ?thesis by (simp add: step_def)
    next
      case (TaskRejected e)
      with assms True ResolveSettles show ?thesis by (simp add: step_def)
    qed
  qed
qed

lemma renderInv_run: "renderInv st \<Longrightarrow> renderInv (run E st schedule)"
  by (induction schedule arbitrary: st) (simp_all add: renderInv_step)

lemma start_options_error:
  "lc_options this = Inl e \<Longrightarrow> start E this source = callback (Inl e) initial"
  by (simp add: start_def)

lemma start_render:
  assumes "lc_options this = Inr opts" and "renderContext opts = Some ctx"
    and "require E (slash E (environmentModulePath opts)) = Inr environment"
    and "chain = TwingLoaderChain
      [PathSupportingArrayLoader [slash E (lc_resourcePath this) \<mapsto> source], env_loader environment]"
    and "setLoader E chain = None"
  shows "start E this source =
     \<lparr>env = Some \<lparr>env_loader = chain,
        env_listeners = env_listeners environment @ [(js ''template'', AddDependencyHandler chain)]\<rparr>,
      listening = True, addDependencyTasks = [], parts = [], waiting = AwaitRender,
      log = [Render (slash E (lc_resourcePath this)),
             On (js ''template'') (AddDependencyHandler chain),
             SetLoader chain,
             AddDependency (slash E (environmentModulePath opts))]\<rparr>"
  using assms
  by (simp add: start_def render_def Let_def initial_def emit_def)

lemma start_render_cases:
  assumes "lc_options this = Inr opts" and "renderContext opts = Some ctx"
  shows "addDependencyTasks (start E this source) = [] \<and>
     (waiting (start E this source) = Finished \<or> waiting (start E this source) = AwaitRender) \<and>
     (\<forall>m. Callback (Inr m) \<notin> set (log (start E this source))) \<and>
     (\<forall>i nm. TaskPushed i nm \<notin> set (log (start E this source))) \<and>
     callbacksOf (log (start E this source)) =
       (if waiting (start E this source) = AwaitRender then [] else callbacksOf (log (start E this source))) \<and>
     dependenciesOf (log (start E this source)) = [slash E (environmentModulePath opts)]"
  using assms
  by (auto simp: start_def render_def Let_def initial_def emit_def callback_def
      split: sum.splits option.splits)

lemma joined_no_callback: "\<forall>m. Callback (Inr m) \<notin> set lg \<Longrightarrow> joined lg"
  unfolding joined_def
proof (intro allI impI)
  fix m earlier
  assume a: "\<forall>m. Callback (Inr m) \<notin> set lg" and s: "suffix (Callback (Inr m) # earlier) lg"
  from s have "Callback (Inr m) \<in> set lg"
    by (auto simp: suffix_def)
  with a show "\<exists>renderedTemplate before.
      suffix (RenderFulfilled renderedTemplate # before) earlier \<and>
      m = renderedModule renderedTemplate \<and>
      (\<forall>i nm. TaskPushed i nm \<in> set before \<longrightarrow> (\<exists>path. TaskAddDependency i path \<in> set earlier))"
    by blast
qed

lemma start_renderInv:
  assumes "lc_options this = Inr opts" and "renderContext opts = Some ctx"
  shows "renderInv (start E this source)"
proof -
  note s = start_render_cases [OF assms, of E source]
  from s have "joined (log (start E this source))"
    by (intro joined_no_callback) simp
  with s show ?thesis
    by (auto simp: renderInv_def tasksLogged_def joinPending_def)
qed

lemma render_final_joined:
  assumes "lc_options this = Inr opts" and "renderContext opts = Some ctx"
  shows "joined (log (twing_loader E this source schedule))"
  using renderInv_run [OF start_renderInv [OF assms], of E E source schedule]
  by (simp add: twing_loader_def renderInv_def)

lemma render_final_env:
  assumes "lc_options this = Inr opts" and "renderContext opts = Some ctx"
    and "require E (slash E (environmentModulePath opts)) = Inr environment"
    and "chain = TwingLoaderChain
      [PathSupportingArrayLoader [slash E (lc_resourcePath this) \<mapsto> source], env_loader environment]"
    and "setLoader E chain = None"
  shows "env (twing_loader E this source schedule) =
     Some \<lparr>env_loader = chain,
       env_listeners = env_listeners environment @ [(js ''template'', AddDependencyHandler chain)]\<rparr>"
  by (simp add: twing_loader_def run_env start_render [OF assms])

lemma override_hit:
  "templates nm = Some text \<Longrightarrow>
   getSourceContext (TwingLoaderChain [PathSupportingArrayLoader templates, fallback]) nm fr =
     Inr \<lparr>getCode = text, getName = nm, getResolvedName = Some nm\<rparr>"
  by (simp add: PathSupportingArrayLoader_getSourceContext_def
      TwingLoaderArray_getSourceContext_def)

lemma override_miss:
  "templates nm = None \<Longrightarrow>
   getSourceContext (TwingLoaderChain [PathSupportingArrayLoader templates, fallback]) nm fr =
     getSourceContext fallback nm fr"
  by (simp add: PathSupportingArrayLoader_getSourceContext_def
      TwingLoaderArray_getSourceContext_def)

lemma callbacksOf_mem: "r \<in> set (callbacksOf lg) \<longleftrightarrow> Callback r \<in> set lg"
  by (auto simp: callbacksOf_def split: event.splits)

lemma mem_suffix: "x \<in> set lg \<Longrightarrow> \<exists>earlier. suffix (x # earlier) lg"
  by (metis split_list suffixI)

lemma precompiledModule_hd: "hd (precompiledModule e c d k) = 0x63"
  by (simp add: precompiledModule_def envRequire_def js_def)

lemma renderedModule_hd: "hd (renderedModule r) = 0x6D"
  by (simp add: renderedModule_def js_def)

lemma shapes_differ: "precompiledModule e c d k \<noteq> renderedModule r"
proof
  assume "precompiledModule e c d k = renderedModule r"
  then have "hd (precompiledModule e c d k) = hd (renderedModule r)"
    by simp
  then show False
    by (simp add: precompiledModule_hd renderedModule_hd)
qed

lemma start_precompile_waiting:
  assumes "lc_options this = Inr opts" and "renderContext opts = None"
    and "waiting (start E this source) = AwaitVisitor key nodeModule"
  shows "key = getTemplateHash (sha256 E) (lc_mode this) (slash E (lc_resourcePath this)) \<and>
     parts (start E this source) = [envRequire (slash E (environmentModulePath opts))]"
  using assms
  by (auto simp: start_def precompile_def Let_def initial_def emit_def push_def callback_def
      split: sum.splits)

lemma precompile_final_module:
  assumes "lc_options this = Inr opts" and "renderContext opts = None"
    and "Callback (Inr m) \<in> set (log (twing_loader E this source schedule))"
  shows "\<exists>code names. m = precompiledModule (slash E (environmentModulePath opts)) code
     (map (slash E) names)
     (getTemplateHash (sha256 E) (lc_mode this) (slash E (lc_resourcePath this)))"
proof -
  let ?st = "start E this source"
  note s = start_precompile_cases [OF assms(1,2), of E source]
  from s have none: "Callback (Inr m) \<notin> set (log ?st)"
    by (simp add: callbacksOf_mem)
  from s consider "waiting ?st = Finished"
    | key nodeModule where "waiting ?st = AwaitVisitor key nodeModule" by blast
  then show ?thesis
  proof cases
    case 1
    with s have "run E ?st schedule = ?st" by (intro run_quiet) simp_all
    with none assms(3) show ?thesis by (simp add: twing_loader_def)
  next
    case 2
    note w = start_precompile_waiting [OF assms(1,2) 2]
    from s have q: "\<not> listening ?st" "addDependencyTasks ?st = []" by simp_all
    from run_precompile_cases [OF q 2, of E schedule]
    consider "run E ?st schedule = ?st"
      | e where "run E ?st schedule = callback (Inl e) ?st"
      | names where "run E ?st schedule = visitorThen E key nodeModule names ?st"
      by blast
    then show ?thesis
    proof cases
      case 1
      with none assms(3) show ?thesis by (simp add: twing_loader_def)
    next
      case 2
      with none assms(3) show ?thesis by (simp add: twing_loader_def)
    next
      case 3
      from visitorThen_log_cases [of E key nodeModule names ?st] show ?thesis
      proof (elim disjE exE conjE)
        fix e
        assume "log (visitorThen E key nodeModule names ?st) =
          Callback (Inl e) # Compile # VisitorFulfilled names # log ?st"
        with 3 none assms(3) show ?thesis by (simp add: twing_loader_def)
      next
        fix code
        assume p: "parts (visitorThen E key nodeModule names ?st) =
            parts ?st @ [templatesModule code] @ map (\<lambda>n. depRequire (slash E n)) names
              @ [registerTemplatesModule key, renderTemplate key]"
          and l: "log (visitorThen E key nodeModule names ?st) =
            Callback (Inr (join (js ''\<newline>'') (parts (visitorThen E key nodeModule names ?st))))
            # Push (renderTemplate key) # Push (registerTemplatesModule key)
            # rev (map (\<lambda>n. Push (depRequire (slash E n))) names)
            @ Push (templatesModule code) # Compile # VisitorFulfilled names # log ?st"
        from assms(3) 3 none have "m = join (js ''\<newline>'') (parts (visitorThen E key nodeModule names ?st))"
          unfolding twing_loader_def by (auto simp: l)
        then have "m = join (js ''\<newline>'')
            (parts ?st @ [templatesModule code] @ map (\<lambda>n. depRequire (slash E n)) names
              @ [registerTemplatesModule key, renderTemplate key])"
          by (simp only: p)
        then have "m = precompiledModule (slash E (environmentModulePath opts)) code
           (map (slash E) names) key"
          by (simp add: w precompiledModule_def comp_def)
        with w show ?thesis by blast
      qed
    qed
  qed
qed

lemma render_final_module:
  assumes "lc_options this = Inr opts" and "renderContext opts = Some ctx"
    and "Callback (Inr m) \<in> set (log (twing_loader E this source schedule))"
  shows "\<exists>renderedTemplate. m = renderedModule renderedTemplate"
proof -
  from mem_suffix [OF assms(3)] obtain earlier
    where "suffix (Callback (Inr m) # earlier) (log (twing_loader E this source schedule))"
    by blast
  with render_final_joined [OF assms(1,2), of E source schedule] show ?thesis
    unfolding joined_def by blast
qed

text \<open>Failures of the tokenizer or the parser in the precompile branch.\<close>

lemma start_precompile_failure:
  assumes "lc_options this = Inr opts" and "renderContext opts = None"
    and "require E (slash E (environmentModulePath opts)) = Inr environment"
    and "key = getTemplateHash (sha256 E) (lc_mode this) (slash E (lc_resourcePath this))"
    and "sourceContext = \<lparr>getCode = source, getName = key, getResolvedName = None\<rparr>"
    and "tokenize E sourceContext = Inl e \<or>
         (\<exists>tokenStream. tokenize E sourceContext = Inr tokenStream \<and> parse E tokenStream = Inl e)"
  shows "\<not> listening (start E this source) \<and> addDependencyTasks (start E this source) = [] \<and>
     waiting (start E this source) = Finished \<and>
     callbacksOf (log (start E this source)) = [Inl e] \<and>
     dependenciesOf (log (start E this source)) = [slash E (environmentModulePath opts)]"
  using assms
  by (auto simp: start_def precompile_def Let_def initial_def emit_def push_def callback_def)

text \<open>The render branch while the render promise is pending, and after the callback.\<close>

lemma awaitAll_idle:
  "waiting st = AwaitRender \<or> waiting st = Finished \<Longrightarrow> awaitAll st = st"
  by (auto simp: awaitAll_def)

lemma step_await_render:
  assumes "waiting st = AwaitRender" and "\<forall>r. s \<noteq> RenderSettles r"
  shows "waiting (step E st s) = AwaitRender \<and>
     callbacksOf (log (step E st s)) = callbacksOf (log st) \<and>
     (\<exists>ds. dependenciesOf (log (step E st s)) = dependenciesOf (log st) @ ds)"
  using assms
  by (cases s) (auto simp: step_def awaitAll_idle split: task.splits sum.splits)

lemma run_await_render:
  assumes "waiting st = AwaitRender" and "\<forall>s \<in> set pre. \<forall>r. s \<noteq> RenderSettles r"
  shows "waiting (run E st pre) = AwaitRender \<and>
     callbacksOf (log (run E st pre)) = callbacksOf (log st) \<and>
     (\<exists>ds. dependenciesOf (log (run E st pre)) = dependenciesOf (log st) @ ds)"
  using assms
proof (induction pre arbitrary: st)
  case Nil
  then show ?case by simp
next
  case (Cons s pre)
  from Cons.prems have s: "\<forall>r. s \<noteq> RenderSettles r" and p: "\<forall>x \<in> set pre. \<forall>r. x \<noteq> RenderSettles r"
    by simp_all
  note 1 = step_await_render [OF Cons.prems(1) s, of E]
  from 1 have w: "waiting (step E st s) = AwaitRender" by simp
  note 2 = Cons.IH [OF w p]
  from 1 2 show ?case by auto
qed

lemma step_finished:
  assumes "waiting st = Finished"
  shows "waiting (step E st s) = Finished \<and>
     callbacksOf (log (step E st s)) = callbacksOf (log st) \<and>
     (\<exists>ds. dependenciesOf (log (step E st s)) = dependenciesOf (log st) @ ds)"
  using assms
  by (cases s) (auto simp: step_def awaitAll_idle split: task.splits sum.splits)

lemma run_finished:
  assumes "waiting st = Finished"
  shows "waiting (run E st rest) = Finished \<and>
     callbacksOf (log (run E st rest)) = callbacksOf (log st) \<and>
     (\<exists>ds. dependenciesOf (log (run E st rest)) = dependenciesOf (log st) @ ds)"
  using assms
proof (induction rest arbitrary: st)
  case Nil
  then show ?case by simp
next
  case (Cons s rest)
  note 1 = step_finished [OF Cons.prems, of E s]
  from 1 have w: "waiting (step E st s) = Finished" by simp
  note 2 = Cons.IH [OF w]
  from 1 2 show ?case by auto
qed

lemma render_rejected:
  assumes "lc_options this = Inr opts" and "renderContext opts = Some ctx"
    and "require E (slash E (environmentModulePath opts)) = Inr environment"
    and "setLoader E (TwingLoaderChain
      [PathSupportingArrayLoader [slash E (lc_resourcePath this) \<mapsto> source],
       env_loader environment]) = None"
    and "\<forall>s \<in> set pre. \<forall>r. s \<noteq> RenderSettles r"
  shows "callbacks (twing_loader E this source (pre @ RenderSettles (Inl e) # rest)) = [Inl e] \<and>
     (\<exists>ds. dependencies (twing_loader E this source (pre @ RenderSettles (Inl e) # rest)) =
        slash E (environmentModulePath opts) # ds)"
proof -
  let ?st0 = "start E this source"
  let ?st1 = "run E ?st0 pre"
  let ?st2 = "step E ?st1 (RenderSettles (Inl e))"
  note st0 = start_render [OF assms(1-3) refl assms(4)]
  have w0: "waiting ?st0 = AwaitRender" by (simp add: st0)
  note 1 = run_await_render [OF w0 assms(5), of E]
  from 1 have w1: "waiting ?st1 = AwaitRender" by simp
  have s2: "?st2 = callback (Inl e) ?st1"
    by (simp add: step_def w1)
  then have w2: "waiting ?st2 = Finished" by simp
  note 3 = run_finished [OF w2, of E rest]
  have f: "twing_loader E this source (pre @ RenderSettles (Inl e) # rest) = run E ?st2 rest"
    by (simp add: twing_loader_def run_append)
  have c0: "callbacksOf (log ?st0) = []" and d0: "dependenciesOf (log ?st0) =
      [slash E (environmentModulePath opts)]"
    by (simp_all add: st0)
  from 1 3 show ?thesis
    unfolding f callbacks_eq dependencies_eq by (auto simp: s2 c0 d0)
qed

lemma sample_render_start:
  "start sampleEngine (sampleContext (Some Map.empty)) (js ''hello'') =
     \<lparr>env = Some \<lparr>env_loader = sampleChain,
        env_listeners = [(js ''template'', AddDependencyHandler sampleChain)]\<rparr>,
      listening = True, addDependencyTasks = [], parts = [], waiting = AwaitRender,
      log = [Render (js ''/t/a.twig''),
             On (js ''template'') (AddDependencyHandler sampleChain),
             SetLoader sampleChain,
             AddDependency (js ''/env.js'')]\<rparr>"
  using start_render [of "sampleContext (Some Map.empty)" _ Map.empty sampleEngine
      sampleEnvironment sampleChain "js ''hello''"]
  by (simp add: sampleChain_def sampleEnvironment_def)

lemma sample_render_run:
  "twing_loader sampleEngine (sampleContext (Some Map.empty)) (js ''hello'')
     [Emit (js ''x'') noSource, RenderSettles (Inr (js ''hi'')),
      Emit (js ''y'') noSource, ResolveSettles 0 (Inr (js ''/x''))] =
   \<lparr>env = Some \<lparr>env_loader = sampleChain,
        env_listeners = [(js ''template'', AddDependencyHandler sampleChain)]\<rparr>,
      listening = True,
      addDependencyTasks = [TaskFulfilled (js ''/x''), TaskPending (js ''y'') noSource],
      parts = [], waiting = Finished,
      log = [Callback (Inr (renderedModule (js ''hi''))),
             TaskAddDependency 0 (js ''/x''),
             TaskPushed 1 (js ''y''),
             RenderFulfilled (js ''hi''),
             TaskPushed 0 (js ''x''),
             Render (js ''/t/a.twig''),
             On (js ''template'') (AddDependencyHandler sampleChain),
             SetLoader sampleChain,
             AddDependency (js ''/env.js'')]\<rparr>"
  by (simp add: twing_loader_def sample_render_start step_def awaitAll_def isRejected_def
      isFulfilled_def emit_def callback_def)

lemma sample_precompile_callbacks:
  "callbacks (twing_loader sampleEngine (sampleContext None) (js ''hello'')
      [VisitorSettles (Inr [js ''/t/b.twig''])]) =
   [Inr (precompiledModule (js ''/env.js'') (js ''/* compiled */'') [js ''/t/b.twig'']
      (js ''/t/a.twig''))]"
  by (simp add: callbacks_eq sample_precompile_log)

lemma sample_failing_tokenize:
  "tokenize sampleEngine \<lparr>getCode = js ''{% if'', getName = js ''/t/a.twig'',
      getResolvedName = None\<rparr> = Inl (Error ''Unexpected end of template'')"
  by (simp add: sampleEngine_tokenize)


text \<open>
  Delivery in the render branch: once the render promise is fulfilled, the join over
  the collected tasks is waiting, has handed the module to the callback, or has handed
  an error to it because a collected task was rejected.
\<close>

lemma find_rejected:
  assumes "find isRejected (take n ts) = Some x" and "n \<le> length ts"
  shows "(\<exists>e. x = TaskRejected e) \<and> (\<exists>i < n. isRejected (ts ! i))"
proof -
  from assms(1) obtain i where i: "i < length (take n ts)" and r: "isRejected (take n ts ! i)"
    and x: "x = take n ts ! i"
    unfolding find_Some_iff by blast
  from i assms(2) have "i < n" by simp
  with r have "isRejected (ts ! i)" by simp
  moreover from r x have "isRejected x" by simp
  then obtain e where "x = TaskRejected e"
    by (cases x) (auto simp: isRejected_def)
  ultimately show ?thesis
    using \<open>i < n\<close> by blast
qed

lemma awaitAll_outcome:
  assumes "waiting st = AwaitTasks r n" and "n \<le> length (addDependencyTasks st)"
    and "callbacksOf (log st) = []"
  shows "joinOutcome r n (awaitAll st)"
proof (cases "find isRejected (take n (addDependencyTasks st))")
  case None
  with assms show ?thesis
    by (simp add: awaitAll_def joinOutcome_def)
next
  case (Some x)
  from find_rejected [OF Some assms(2)] obtain e where "x = TaskRejected e"
    and "\<exists>i < n. isRejected (addDependencyTasks st ! i)"
    by blast
  with Some assms show ?thesis
    by (simp add: awaitAll_def joinOutcome_def)
qed

lemma joinOutcome_emit:
  assumes "joinOutcome r n st"
  shows "joinOutcome r n ((emit (TaskPushed k nm) st)
     \<lparr>addDependencyTasks := addDependencyTasks st @ [t]\<rparr>)"
proof -
  let ?st' = "(emit (TaskPushed k nm) st)\<lparr>addDependencyTasks := addDependencyTasks st @ [t]\<rparr>"
  from assms have n: "n \<le> length (addDependencyTasks st)"
    by (simp add: joinOutcome_def)
  then have len: "n \<le> length (addDependencyTasks ?st')"
    by simp
  from n have t: "take n (addDependencyTasks ?st') = take n (addDependencyTasks st)"
    by simp
  have w: "waiting ?st' = waiting st"
    by simp
  have c: "callbacksOf (log ?st') = callbacksOf (log st)"
    by simp
  from assms consider
      (awaiting) "waiting st = AwaitTasks r n" "callbacksOf (log st) = []"
    | (delivered) "waiting st = Finished" "callbacksOf (log st) = [Inr (renderedModule r)]"
    | (failed) e j where "waiting st = Finished" "callbacksOf (log st) = [Inl e]"
        "j < n" "isRejected (addDependencyTasks st ! j)"
    unfolding joinOutcome_def by blast
  then show ?thesis
  proof cases
    case awaiting
    with assms have "find isRejected (take n (addDependencyTasks st)) = None"
      and "\<not> list_all isFulfilled (take n (addDependencyTasks st))"
      by (simp_all add: joinOutcome_def)
    with awaiting len show ?thesis
      unfolding joinOutcome_def t w c by blast
  next
    case delivered
    with len show ?thesis
      unfolding joinOutcome_def t w c by blast
  next
    case failed
    from failed(3) n have "addDependencyTasks ?st' ! j = addDependencyTasks st ! j"
      by (simp add: nth_append)
    with failed(4) have "isRejected (addDependencyTasks ?st' ! j)"
      by simp
    with failed(1-3) len show ?thesis
      unfolding joinOutcome_def w c by blast
  qed
qed

lemma joinOutcome_settled:
  assumes "joinOutcome r n st" and "i < length (addDependencyTasks st)"
    and "addDependencyTasks st ! i = TaskPending nm fr"
    and "log st' = log st \<or> log st' = TaskAddDependency i p # log st"
    and "waiting st' = waiting st"
    and "addDependencyTasks st' = (addDependencyTasks st)[i := t]"
  shows "joinOutcome r n (awaitAll st')"
proof -
  from assms(1) have n: "n \<le> length (addDependencyTasks st')"
    by (simp add: joinOutcome_def assms(6))
  from assms(4) have c: "callbacksOf (log st') = callbacksOf (log st)"
    by auto
  from assms(1) consider
      (awaiting) "waiting st = AwaitTasks r n" "callbacksOf (log st) = []"
    | (delivered) "waiting st = Finished" "callbacksOf (log st) = [Inr (renderedModule r)]"
    | (failed) e j where "waiting st = Finished" "callbacksOf (log st) = [Inl e]"
        "j < n" "isRejected (addDependencyTasks st ! j)"
    unfolding joinOutcome_def by blast
  then show ?thesis
  proof cases
    case awaiting
    with n c assms(5) show ?thesis
      by (intro awaitAll_outcome) simp_all
  next
    case delivered
    then have "awaitAll st' = st'"
      by (intro awaitAll_idle) (simp add: assms(5))
    with delivered n c assms(5) show ?thesis
      by (simp add: joinOutcome_def)
  next
    case failed
    then have "awaitAll st' = st'"
      by (intro awaitAll_idle) (simp add: assms(5))
    moreover from failed(4) assms(3) have "j \<noteq> i"
      by (auto simp: isRejected_def)
    then have "isRejected (addDependencyTasks st' ! j)"
      using failed(4) by (simp add: assms(6))
    ultimately show ?thesis
      using failed n c assms(5) by (auto simp: joinOutcome_def)
  qed
qed

lemma joinOutcome_waiting:
  "joinOutcome r n st \<Longrightarrow> waiting st = AwaitTasks r n \<or> waiting st = Finished"
  unfolding joinOutcome_def by blast

lemma joinOutcome_step:
  assumes "joinOutcome r n st"
  shows "joinOutcome r n (step E st s)"
proof (cases s)
  case (VisitorSettles x)
  with joinOutcome_waiting [OF assms] assms show ?thesis
    by (auto simp: step_def)
next
  case (RenderSettles x)
  with joinOutcome_waiting [OF assms] assms show ?thesis
    by (auto simp: step_def)
next
  case (Emit nm fr)
  with assms show ?thesis
    by (simp add: step_def joinOutcome_emit)
next
  case (ResolveSettles i x)
  show ?thesis
  proof (cases "i < length (addDependencyTasks st)")
    case False
    with assms ResolveSettles show ?thesis by (simp add: step_def)
  next
    case True
    show ?thesis
    proof (cases "addDependencyTasks st ! i")
      case (TaskPending nm fr)
      show ?thesis
      proof (cases x)
        case (Inl e)
        have "joinOutcome r n (awaitAll (st\<lparr>addDependencyTasks :=
            (addDependencyTasks st)[i := TaskRejected e]\<rparr>))"
          by (rule joinOutcome_settled [OF assms True TaskPending]) simp_all
        with ResolveSettles True TaskPending Inl show ?thesis
          by (simp add: step_def)
      next
        case (Inr p)
        have "joinOutcome r n (awaitAll ((emit (TaskAddDependency i p) st)\<lparr>addDependencyTasks :=
            (addDependencyTasks st)[i := TaskFulfilled p]\<rparr>))"
          by (rule joinOutcome_settled [OF assms True TaskPending, where p = p]) simp_all
        with ResolveSettles True TaskPending Inr show ?thesis
          by (simp add: step_def)
      qed
    next
      case (TaskFulfilled p)
      with assms True ResolveSettles show ?thesis by (simp add: step_def)
    next
      case (TaskRejected e)
      with assms True ResolveSettles show ?thesis by (simp add: step_def)
    qed
  qed
qed

lemma joinOutcome_run: "joinOutcome r n st \<Longrightarrow> joinOutcome r n (run E st schedule)"
proof (induction schedule arbitrary: st)
  case Nil
  then show ?case by (simp only: run_Nil)
next
  case (Cons s schedule)
  from Cons.IH [OF joinOutcome_step [OF Cons.prems]] show ?case
    by (simp only: run_Cons)
qed

lemma joinOutcome_fulfilled:
  assumes "joinOutcome r n st" and "list_all isFulfilled (take n (addDependencyTasks st))"
  shows "callbacksOf (log st) = [Inr (renderedModule r)]"
proof -
  have "\<not> isRejected (addDependencyTasks st ! i)" if "i < n" for i
  proof -
    from assms(1) have "n \<le> length (addDependencyTasks st)"
      by (simp add: joinOutcome_def)
    from all_fulfilled [OF assms(2) this that] show ?thesis
      by (auto simp: isRejected_def)
  qed
  with assms show ?thesis
    unfolding joinOutcome_def by blast
qed

lemma render_delivers:
  assumes "lc_options this = Inr opts" and "renderContext opts = Some ctx"
    and "require E (slash E (environmentModulePath opts)) = Inr environment"
    and "setLoader E (TwingLoaderChain
      [PathSupportingArrayLoader [slash E (lc_resourcePath this) \<mapsto> source],
       env_loader environment]) = None"
    and "\<forall>s \<in> set pre. \<forall>x. s \<noteq> RenderSettles x"
    and "list_all isFulfilled
      (take (length (addDependencyTasks (twing_loader E this source pre)))
        (addDependencyTasks (twing_loader E this source (pre @ RenderSettles (Inr r) # rest))))"
  shows "callbacks (twing_loader E this source (pre @ RenderSettles (Inr r) # rest)) =
     [Inr (renderedModule r)]"
proof -
  let ?st0 = "start E this source"
  let ?st1 = "run E ?st0 pre"
  let ?n = "length (addDependencyTasks ?st1)"
  let ?st2 = "step E ?st1 (RenderSettles (Inr r))"
  note st0 = start_render [OF assms(1-3) refl assms(4)]
  have w0: "waiting ?st0 = AwaitRender" by (simp add: st0)
  note 1 = run_await_render [OF w0 assms(5), of E]
  from 1 have w1: "waiting ?st1 = AwaitRender" by simp
  from 1 have c1: "callbacksOf (log ?st1) = []" by (simp add: st0)
  have s2: "?st2 = awaitAll ((emit (RenderFulfilled r) ?st1)\<lparr>waiting := AwaitTasks r ?n\<rparr>)"
    by (simp add: step_def w1)
  have "joinOutcome r ?n ?st2"
    unfolding s2 by (rule awaitAll_outcome) (simp_all add: c1)
  then have "joinOutcome r ?n (run E ?st2 rest)"
    by (rule joinOutcome_run)
  moreover have f: "twing_loader E this source (pre @ RenderSettles (Inr r) # rest) = run E ?st2 rest"
    by (simp add: twing_loader_def run_append)
  ultimately have j: "joinOutcome r (length (addDependencyTasks (twing_loader E this source pre)))
      (twing_loader E this source (pre @ RenderSettles (Inr r) # rest))"
    by (simp add: twing_loader_def)
  show ?thesis
    unfolding callbacks_eq by (rule joinOutcome_fulfilled [OF j assms(6)])
qed

text \<open>Delivery in the precompile branch, and the text of a precompiled module.\<close>

lemma precompile_delivers:
  assumes "lc_options this = Inr opts" and "renderContext opts = None"
    and "require E (slash E (environmentModulePath opts)) = Inr environment"
    and "key = getTemplateHash (sha256 E) (lc_mode this) (slash E (lc_resourcePath this))"
    and "tokenize E \<lparr>getCode = source, getName = key, getResolvedName = None\<rparr> = Inr tokenStream"
    and "parse E tokenStream = Inr nodeModule"
    and "compile E nodeModule = Inr precompiledTemplate"
    and "\<forall>s \<in> set pre. \<forall>x. s \<noteq> VisitorSettles x"
  shows "callbacks (twing_loader E this source (pre @ VisitorSettles (Inr names) # rest)) =
     [Inr (precompiledModule (slash E (environmentModulePath opts)) precompiledTemplate
        (map (slash E) names) key)]"
proof -
  let ?st0 = "start E this source"
  let ?st1 = "visitorThen E key nodeModule names ?st0"
  have st0: "?st0 =
     \<lparr>env = Some environment, listening = False, addDependencyTasks = [],
      parts = [envRequire (slash E (environmentModulePath opts))],
      waiting = AwaitVisitor key nodeModule,
      log = [GetTemplateNames, Parse,
             Tokenize \<lparr>getCode = source, getName = key, getResolvedName = None\<rparr>,
             Push (envRequire (slash E (environmentModulePath opts))),
             AddDependency (slash E (environmentModulePath opts))]\<rparr>"
    using assms(1-6) by (rule start_precompile [OF _ _ _ _ refl])
  have pre: "run E ?st0 pre = ?st0"
    using assms(8) by (intro run_await_visitor [where key = key and node = nodeModule])
      (simp_all add: st0)
  have stp: "step E ?st0 (VisitorSettles (Inr names)) = ?st1"
    by (simp add: step_def st0)
  have rest: "run E ?st1 rest = ?st1"
    by (intro run_quiet) (simp_all add: visitorThen_fields st0)
  have final: "twing_loader E this source (pre @ VisitorSettles (Inr names) # rest) = ?st1"
    by (simp add: twing_loader_def run_append pre stp rest)
  have p: "parts ?st1 =
       [envRequire (slash E (environmentModulePath opts)), templatesModule precompiledTemplate]
       @ map depRequire (map (slash E) names)
       @ [registerTemplatesModule key, renderTemplate key]"
    by (simp add: visitorThen_parts [OF assms(7)] st0 comp_def)
  have "callbacksOf (log ?st1) = [Inr (join (js ''\<newline>'') (parts ?st1))]"
    by (simp add: visitorThen_log [OF assms(7)] st0)
  then show ?thesis
    unfolding final callbacks_eq precompiledModule_def p .
qed

lemma precompiledModule_text:
  "precompiledModule e c d k =
     concat (map (\<lambda>p. p @ js ''\<newline>'')
       ([envRequire e, templatesModule c] @ map (\<lambda>n. depRequire n) d
        @ [registerTemplatesModule k]))
     @ renderTemplate k"
proof -
  let ?xs = "[envRequire e, templatesModule c] @ map depRequire d
        @ [registerTemplatesModule k, renderTemplate k]"
  have "?xs \<noteq> []"
    by simp
  from join_butlast [OF this, of "js ''\<newline>''"] show ?thesis
    unfolding precompiledModule_def by (simp add: butlast_append)
qed
text \<open>
  C2, as amended. In render mode, whatever the schedule, a module text reaches the
  callback only after the render promise was fulfilled, it is the text of that
  rendering, and every task that was pushed to \<open>addDependencyTasks\<close> before
  the fulfilment (the tasks \<open>Promise.all\<close> was called on) has made its
  \<open>addDependency\<close> call before the callback. The log is newest first:
  \<open>earlier\<close> is what came before the callback, \<open>before\<close> what came
  before the fulfilment.
\<close>

theorem module_after_collected_tasks:
  assumes "lc_options this = Inr opts" and "renderContext opts = Some ctx"
    and "suffix (Callback (Inr m) # earlier) (log (twing_loader E this source schedule))"
  shows "\<exists>renderedTemplate before.
     suffix (RenderFulfilled renderedTemplate # before) earlier \<and>
     m = renderedModule renderedTemplate \<and>
     (\<forall>i nm. TaskPushed i nm \<in> set before \<longrightarrow> (\<exists>path. TaskAddDependency i path \<in> set earlier))"
  using render_final_joined [OF assms(1,2), of E source schedule] assms(3)
  unfolding joined_def by blast

theorem module_after_collected_tasks_witness:
  "lc_options (sampleContext (Some Map.empty)) =
     Inr \<lparr>environmentModulePath = js ''/env.js'', renderContext = Some Map.empty\<rparr> \<and>
   suffix
     (Callback (Inr (renderedModule (js ''hi''))) #
      [TaskAddDependency 0 (js ''/x''), TaskPushed 1 (js ''y''), RenderFulfilled (js ''hi''),
       TaskPushed 0 (js ''x''), Render (js ''/t/a.twig''),
       On (js ''template'') (AddDependencyHandler sampleChain), SetLoader sampleChain,
       AddDependency (js ''/env.js'')])
     (log (twing_loader sampleEngine (sampleContext (Some Map.empty)) (js ''hello'')
        [Emit (js ''x'') noSource, RenderSettles (Inr (js ''hi'')),
         Emit (js ''y'') noSource, ResolveSettles 0 (Inr (js ''/x''))])) \<and>
   (\<exists>renderedTemplate before.
      suffix (RenderFulfilled renderedTemplate # before)
        [TaskAddDependency 0 (js ''/x''), TaskPushed 1 (js ''y''), RenderFulfilled (js ''hi''),
         TaskPushed 0 (js ''x''), Render (js ''/t/a.twig''),
         On (js ''template'') (AddDependencyHandler sampleChain), SetLoader sampleChain,
         AddDependency (js ''/env.js'')] \<and>
      renderedModule (js ''hi'') = renderedModule renderedTemplate \<and>
      (\<forall>i nm. TaskPushed i nm \<in> set before \<longrightarrow>
         (\<exists>path. TaskAddDependency i path \<in> set
            [TaskAddDependency 0 (js ''/x''), TaskPushed 1 (js ''y''), RenderFulfilled (js ''hi''),
             TaskPushed 0 (js ''x''), Render (js ''/t/a.twig''),
             On (js ''template'') (AddDependencyHandler sampleChain), SetLoader sampleChain,
             AddDependency (js ''/env.js'')])))"
proof -
  let ?earlier = "[TaskAddDependency 0 (js ''/x''), TaskPushed 1 (js ''y''), RenderFulfilled (js ''hi''),
       TaskPushed 0 (js ''x''), Render (js ''/t/a.twig''),
       On (js ''template'') (AddDependencyHandler sampleChain), SetLoader sampleChain,
       AddDependency (js ''/env.js'')]"
  let ?opts = "\<lparr>environmentModulePath = js ''/env.js'',
    renderContext = Some (Map.empty :: jsstring \<rightharpoonup> jsstring)\<rparr>"
  have h1: "lc_options (sampleContext (Some Map.empty)) = Inr ?opts"
    by simp
  have h2: "renderContext ?opts = Some Map.empty"
    by simp
  have h3: "suffix (Callback (Inr (renderedModule (js ''hi''))) # ?earlier)
     (log (twing_loader sampleEngine (sampleContext (Some Map.empty)) (js ''hello'')
        [Emit (js ''x'') noSource, RenderSettles (Inr (js ''hi'')),
         Emit (js ''y'') noSource, ResolveSettles 0 (Inr (js ''/x''))]))"
    unfolding sample_render_run by simp
  from module_after_collected_tasks [OF h1 h2 h3] h1 h3 show ?thesis
    by blast
qed

text \<open>
  C2 as stated fails for a task the listener pushes after the render promise was
  fulfilled: with the stimuli below the callback has received the module text while the
  second task, pushed by the listener, is still pending, and only the first task's path
  has been declared.
\<close>

theorem module_before_late_task:
  "callbacks (twing_loader sampleEngine (sampleContext (Some Map.empty)) (js ''hello'')
     [Emit (js ''x'') noSource, RenderSettles (Inr (js ''hi'')),
      Emit (js ''y'') noSource, ResolveSettles 0 (Inr (js ''/x''))]) =
     [Inr (renderedModule (js ''hi''))] \<and>
   addDependencyTasks (twing_loader sampleEngine (sampleContext (Some Map.empty)) (js ''hello'')
     [Emit (js ''x'') noSource, RenderSettles (Inr (js ''hi'')),
      Emit (js ''y'') noSource, ResolveSettles 0 (Inr (js ''/x''))]) =
     [TaskFulfilled (js ''/x''), TaskPending (js ''y'') noSource] \<and>
   dependencies (twing_loader sampleEngine (sampleContext (Some Map.empty)) (js ''hello'')
     [Emit (js ''x'') noSource, RenderSettles (Inr (js ''hi'')),
      Emit (js ''y'') noSource, ResolveSettles 0 (Inr (js ''/x''))]) =
     [js ''/env.js'', js ''/x'']"
  unfolding sample_render_run by (simp add: callbacks_eq dependencies_eq)

text \<open>
  C10. A render-mode invocation that installs its chain leaves the environment, after
  any schedule whatever (the render promise fulfilled or rejected, tasks fulfilled,
  rejected or pending), with the chain as the active loader and with its listener
  appended to the listeners: the previous loader is not put back and the listener is
  not removed.
\<close>

theorem render_mutations_persist:
  assumes "lc_options this = Inr opts" and "renderContext opts = Some ctx"
    and "require E (slash E (environmentModulePath opts)) = Inr environment"
    and "chain = TwingLoaderChain
      [PathSupportingArrayLoader [slash E (lc_resourcePath this) \<mapsto> source], env_loader environment]"
    and "setLoader E chain = None"
  shows "env (twing_loader E this source schedule) =
     Some \<lparr>env_loader = chain,
       env_listeners = env_listeners environment @ [(js ''template'', AddDependencyHandler chain)]\<rparr>"
  using assms by (rule render_final_env)

theorem render_mutations_persist_witness:
  "lc_options (sampleContext (Some Map.empty)) =
     Inr \<lparr>environmentModulePath = js ''/env.js'', renderContext = Some Map.empty\<rparr> \<and>
   require sampleEngine (slash sampleEngine (js ''/env.js'')) = Inr sampleEnvironment \<and>
   setLoader sampleEngine sampleChain = None \<and>
   env (twing_loader sampleEngine (sampleContext (Some Map.empty)) (js ''hello'')
     [Emit (js ''x'') noSource, RenderSettles (Inl (Error ''render failed'')),
      ResolveSettles 0 (Inl (Error ''not found''))]) =
     Some \<lparr>env_loader = sampleChain,
       env_listeners = env_listeners sampleEnvironment
         @ [(js ''template'', AddDependencyHandler sampleChain)]\<rparr>"
proof -
  let ?opts = "\<lparr>environmentModulePath = js ''/env.js'',
    renderContext = Some (Map.empty :: jsstring \<rightharpoonup> jsstring)\<rparr>"
  have h1: "lc_options (sampleContext (Some Map.empty)) = Inr ?opts"
    by simp
  have h2: "renderContext ?opts = Some Map.empty"
    by simp
  have h3: "require sampleEngine (slash sampleEngine (environmentModulePath ?opts)) =
      Inr sampleEnvironment"
    by simp
  have h4: "sampleChain = TwingLoaderChain
      [PathSupportingArrayLoader
         [slash sampleEngine (lc_resourcePath (sampleContext (Some Map.empty))) \<mapsto> js ''hello''],
       env_loader sampleEnvironment]"
    by (simp add: sampleChain_def)
  have h5: "setLoader sampleEngine sampleChain = None"
    by simp
  from render_mutations_persist [OF h1 h2 h3 h4 h5] h1 h3 h5 show ?thesis
    by simp
qed

text \<open>
  C6. A lookup in the chain of the override loader and a fallback: a name the override
  loader holds gives the stored text with the requested name as resolved name, whatever
  the fallback is; any other name gives exactly what the fallback's lookup gives, a
  failure included. The override itself, over any inherited lookup, returns what that
  lookup returns with the resolved name replaced, and rethrows its failure. In render mode the installed
  loader is such a chain holding the resource path, so a lookup of the resource path
  gives the text being processed.
\<close>

theorem override_loader_lookup:
  "(templates nm = Some text \<longrightarrow>
      getSourceContext (TwingLoaderChain [PathSupportingArrayLoader templates, fallback]) nm fr =
        Inr \<lparr>getCode = text, getName = nm, getResolvedName = Some nm\<rparr>) \<and>
   (templates nm = None \<longrightarrow>
      getSourceContext (TwingLoaderChain [PathSupportingArrayLoader templates, fallback]) nm fr =
        getSourceContext fallback nm fr) \<and>
   (super nm fr = Inl e \<longrightarrow>
      PathSupportingArrayLoader_getSourceContext super nm fr = Inl e) \<and>
   (super nm fr = Inr s \<longrightarrow>
      PathSupportingArrayLoader_getSourceContext super nm fr =
        Inr \<lparr>getCode = getCode s, getName = getName s, getResolvedName = Some nm\<rparr>) \<and>
   (lc_options this = Inr opts \<and> renderContext opts = Some ctx \<and>
    require E (slash E (environmentModulePath opts)) = Inr environment \<and>
    setLoader E (TwingLoaderChain
      [PathSupportingArrayLoader [slash E (lc_resourcePath this) \<mapsto> source],
       env_loader environment]) = None \<longrightarrow>
      (\<exists>environment'. env (twing_loader E this source schedule) = Some environment' \<and>
         getSourceContext (env_loader environment') (slash E (lc_resourcePath this)) fr =
           Inr \<lparr>getCode = source, getName = slash E (lc_resourcePath this),
                getResolvedName = Some (slash E (lc_resourcePath this))\<rparr>))"
proof (intro conjI impI)
  assume a: "lc_options this = Inr opts \<and> renderContext opts = Some ctx \<and>
    require E (slash E (environmentModulePath opts)) = Inr environment \<and>
    setLoader E (TwingLoaderChain
      [PathSupportingArrayLoader [slash E (lc_resourcePath this) \<mapsto> source],
       env_loader environment]) = None"
  let ?chain = "TwingLoaderChain
      [PathSupportingArrayLoader [slash E (lc_resourcePath this) \<mapsto> source],
       env_loader environment]"
  from a have a1: "lc_options this = Inr opts" and a2: "renderContext opts = Some ctx"
    and a3: "require E (slash E (environmentModulePath opts)) = Inr environment"
    and a4: "setLoader E ?chain = None"
    by blast+
  have "env (twing_loader E this source schedule) =
     Some \<lparr>env_loader = ?chain,
       env_listeners = env_listeners environment @ [(js ''template'', AddDependencyHandler ?chain)]\<rparr>"
    by (rule render_final_env [OF a1 a2 a3 refl a4])
  moreover have "getSourceContext ?chain (slash E (lc_resourcePath this)) fr =
      Inr \<lparr>getCode = source, getName = slash E (lc_resourcePath this),
           getResolvedName = Some (slash E (lc_resourcePath this))\<rparr>"
    by (rule override_hit) simp
  ultimately show "\<exists>environment'. env (twing_loader E this source schedule) = Some environment' \<and>
         getSourceContext (env_loader environment') (slash E (lc_resourcePath this)) fr =
           Inr \<lparr>getCode = source, getName = slash E (lc_resourcePath this),
                getResolvedName = Some (slash E (lc_resourcePath this))\<rparr>"
    by simp
qed (simp_all only: override_hit override_miss,
    simp_all add: PathSupportingArrayLoader_getSourceContext_def)

theorem override_loader_lookup_witness:
  "[js ''/t/a.twig'' \<mapsto> js ''hello''] (js ''/t/a.twig'') = Some (js ''hello'') \<and>
   getSourceContext sampleChain (js ''/t/a.twig'') noSource =
     Inr \<lparr>getCode = js ''hello'', getName = js ''/t/a.twig'',
          getResolvedName = Some (js ''/t/a.twig'')\<rparr> \<and>
   [js ''/t/a.twig'' \<mapsto> js ''hello''] (js ''/t/b.twig'') = None \<and>
   getSourceContext sampleChain (js ''/t/b.twig'') noSource =
     getSourceContext (env_loader sampleEnvironment) (js ''/t/b.twig'') noSource \<and>
   getSourceContext sampleChain (js ''/t/b.twig'') noSource = Inl (Error ''not found'') \<and>
   PathSupportingArrayLoader_getSourceContext
     (TwingLoaderArray_getSourceContext [js ''/t/a.twig'' \<mapsto> js ''hello''])
     (js ''/t/b.twig'') noSource = Inl (Error ''Template is not defined.'') \<and>
   PathSupportingArrayLoader_getSourceContext
     (TwingLoaderArray_getSourceContext [js ''/t/a.twig'' \<mapsto> js ''hello''])
     (js ''/t/a.twig'') noSource =
     Inr \<lparr>getCode = js ''hello'', getName = js ''/t/a.twig'',
          getResolvedName = Some (js ''/t/a.twig'')\<rparr> \<and>
   (\<exists>environment'.
      env (twing_loader sampleEngine (sampleContext (Some Map.empty)) (js ''hello'')
        [Emit (js ''x'') noSource, RenderSettles (Inr (js ''hi''))]) = Some environment' \<and>
      getSourceContext (env_loader environment') (js ''/t/a.twig'') noSource =
        Inr \<lparr>getCode = js ''hello'', getName = js ''/t/a.twig'',
             getResolvedName = Some (js ''/t/a.twig'')\<rparr>)"
proof -
  let ?templates = "[js ''/t/a.twig'' \<mapsto> js ''hello'']"
  let ?opts = "\<lparr>environmentModulePath = js ''/env.js'',
    renderContext = Some (Map.empty :: jsstring \<rightharpoonup> jsstring)\<rparr>"
  have h1: "?templates (js ''/t/a.twig'') = Some (js ''hello'')"
    by simp
  have h2: "?templates (js ''/t/b.twig'') = None"
    by (simp add: js_def)
  have h3: "getSourceContext (env_loader sampleEnvironment) (js ''/t/b.twig'') noSource =
      Inl (Error ''not found'')"
    by (simp add: sampleEnvironment_def)
  have h4: "TwingLoaderArray_getSourceContext ?templates (js ''/t/b.twig'') noSource =
      Inl (Error ''Template is not defined.'')"
    using h2 by (simp only: TwingLoaderArray_getSourceContext_def option.case)
  have h5: "TwingLoaderArray_getSourceContext ?templates (js ''/t/a.twig'') noSource =
      Inr \<lparr>getCode = js ''hello'', getName = js ''/t/a.twig'', getResolvedName = None\<rparr>"
    by (simp add: TwingLoaderArray_getSourceContext_def)
  have h6: "lc_options (sampleContext (Some Map.empty)) = Inr ?opts \<and>
      renderContext ?opts = Some Map.empty \<and>
      require sampleEngine (slash sampleEngine (environmentModulePath ?opts)) =
        Inr sampleEnvironment \<and>
      setLoader sampleEngine (TwingLoaderChain
        [PathSupportingArrayLoader
           [slash sampleEngine (lc_resourcePath (sampleContext (Some Map.empty))) \<mapsto> js ''hello''],
         env_loader sampleEnvironment]) = None"
    by simp
  note hit = override_loader_lookup [of ?templates "js ''/t/a.twig''"
      "js ''hello''" "env_loader sampleEnvironment" noSource, THEN conjunct1, THEN mp, OF h1]
  note miss = override_loader_lookup [of ?templates "js ''/t/b.twig''"
      _ "env_loader sampleEnvironment" noSource, THEN conjunct2, THEN conjunct1, THEN mp, OF h2]
  note rethrow = override_loader_lookup [where super = "TwingLoaderArray_getSourceContext ?templates"
      and nm = "js ''/t/b.twig''" and fr = noSource,
      THEN conjunct2, THEN conjunct2, THEN conjunct1, THEN mp, OF h4]
  note rename = override_loader_lookup [where super = "TwingLoaderArray_getSourceContext ?templates"
      and nm = "js ''/t/a.twig''" and fr = noSource,
      THEN conjunct2, THEN conjunct2, THEN conjunct2, THEN conjunct1, THEN mp, OF h5]
  note installed = override_loader_lookup [where fr = noSource
      and schedule = "[Emit (js ''x'') noSource, RenderSettles (Inr (js ''hi''))]",
      THEN conjunct2, THEN conjunct2, THEN conjunct2, THEN conjunct2, THEN mp, OF h6]
  have a: "getSourceContext sampleChain (js ''/t/a.twig'') noSource =
     Inr \<lparr>getCode = js ''hello'', getName = js ''/t/a.twig'',
          getResolvedName = Some (js ''/t/a.twig'')\<rparr>"
    unfolding sampleChain_def by (rule hit)
  have b: "getSourceContext sampleChain (js ''/t/b.twig'') noSource =
     getSourceContext (env_loader sampleEnvironment) (js ''/t/b.twig'') noSource"
    unfolding sampleChain_def by (rule miss)
  have c: "\<exists>environment'.
      env (twing_loader sampleEngine (sampleContext (Some Map.empty)) (js ''hello'')
        [Emit (js ''x'') noSource, RenderSettles (Inr (js ''hi''))]) = Some environment' \<and>
      getSourceContext (env_loader environment') (js ''/t/a.twig'') noSource =
        Inr \<lparr>getCode = js ''hello'', getName = js ''/t/a.twig'',
             getResolvedName = Some (js ''/t/a.twig'')\<rparr>"
    using installed by simp
  have d: "PathSupportingArrayLoader_getSourceContext
     (TwingLoaderArray_getSourceContext ?templates) (js ''/t/a.twig'') noSource =
     Inr \<lparr>getCode = js ''hello'', getName = js ''/t/a.twig'',
          getResolvedName = Some (js ''/t/a.twig'')\<rparr>"
    using rename by simp
  from a b c d h1 h2 h3 rethrow show ?thesis
    by (simp only: simp_thms)
qed

text \<open>
  C5. Whether the render context is present decides what reaches the callback. Without
  it, every module text handed to the callback is a precompiled module for the
  environment module path and the key of this invocation, and when the environment is
  loaded, the template tokenizes, parses and compiles and the visitor's promise is
  fulfilled, exactly that module is handed to the callback. With it, whatever its value,
  every module text is the export of a rendered string, and when the environment is
  loaded, the loader is installed, the render promise is fulfilled and the tasks collected
  until then are fulfilled at the end, exactly the export of the rendered string is
  handed to the callback. No text is of both kinds; the statement gives the text of both.
\<close>

theorem mode_selection:
  assumes "lc_options this = Inr opts"
    and "key = getTemplateHash (sha256 E) (lc_mode this) (slash E (lc_resourcePath this))"
  shows "(renderContext opts = None \<longrightarrow>
       (Inr m \<in> set (callbacks (twing_loader E this source schedule)) \<longrightarrow>
          (\<exists>code names. m = precompiledModule (slash E (environmentModulePath opts)) code
             (map (slash E) names) key)) \<and>
       (require E (slash E (environmentModulePath opts)) = Inr environment \<and>
        tokenize E \<lparr>getCode = source, getName = key, getResolvedName = None\<rparr> = Inr tokenStream \<and>
        parse E tokenStream = Inr nodeModule \<and>
        compile E nodeModule = Inr precompiledTemplate \<and>
        (\<forall>s \<in> set pre. \<forall>x. s \<noteq> VisitorSettles x) \<longrightarrow>
        callbacks (twing_loader E this source (pre @ VisitorSettles (Inr names) # rest)) =
          [Inr (precompiledModule (slash E (environmentModulePath opts)) precompiledTemplate
             (map (slash E) names) key)])) \<and>
     (renderContext opts \<noteq> None \<longrightarrow>
       (Inr m \<in> set (callbacks (twing_loader E this source schedule)) \<longrightarrow>
          (\<exists>renderedTemplate. m = renderedModule renderedTemplate)) \<and>
       (require E (slash E (environmentModulePath opts)) = Inr environment \<and>
        setLoader E (TwingLoaderChain
          [PathSupportingArrayLoader [slash E (lc_resourcePath this) \<mapsto> source],
           env_loader environment]) = None \<and>
        (\<forall>s \<in> set pre. \<forall>x. s \<noteq> RenderSettles x) \<and>
        list_all isFulfilled
          (take (length (addDependencyTasks (twing_loader E this source pre)))
            (addDependencyTasks
              (twing_loader E this source (pre @ RenderSettles (Inr renderedTemplate) # rest)))) \<longrightarrow>
        callbacks (twing_loader E this source (pre @ RenderSettles (Inr renderedTemplate) # rest)) =
          [Inr (renderedModule renderedTemplate)])) \<and>
     (\<forall>e c d k r. precompiledModule e c d k \<noteq> renderedModule r) \<and>
     (\<forall>r. renderedModule r = js ''module.exports = '' @ JSON_stringify r @ js '';'') \<and>
     (\<forall>e c d k. precompiledModule e c d k =
        concat (map (\<lambda>p. p @ js ''\<newline>'')
          ([js ''const env = require('' @ [sq] @ e @ js ''');'',
            js ''\<newline>                    const templatesModule = (() => {\<newline>                    const module = {\<newline>                        exports: undefined\<newline>                    };\<newline>\<newline>                    '' @ c @ js ''\<newline>\<newline>                    return module.exports;\<newline>                    })();\<newline>                '']
           @ map (\<lambda>n. js ''require('' @ [sq] @ n @ js ''');'') d
           @ [js ''env.registerTemplatesModule(templatesModule, '' @ [sq] @ k @ js ''');'']))
        @ js ''\<newline>                    const renderTemplate = (context = {}) => {\<newline>                      const name = '' @ [sq] @ k @ js ''';\<newline>                      env.emit('template', name);\<newline>                      const template = env.loadedTemplates.get(name);\<newline>                      return template.render(context);\<newline>                    };\<newline>\<newline>                    module.exports = renderTemplate;\<newline>                '')"
proof -
  have c: "Callback (Inr m) \<in> set (log (twing_loader E this source schedule))"
    if "Inr m \<in> set (callbacks (twing_loader E this source schedule))"
    using that by (simp add: callbacks_eq callbacksOf_mem)
  have 1: "\<exists>code names. m = precompiledModule (slash E (environmentModulePath opts)) code
          (map (slash E) names) key"
    if "renderContext opts = None"
      and "Inr m \<in> set (callbacks (twing_loader E this source schedule))"
    unfolding assms(2) using precompile_final_module [OF assms(1) that(1) c [OF that(2)]] .
  have 2: "callbacks (twing_loader E this source (pre @ VisitorSettles (Inr names) # rest)) =
          [Inr (precompiledModule (slash E (environmentModulePath opts)) precompiledTemplate
             (map (slash E) names) key)]"
    if "renderContext opts = None"
      and "require E (slash E (environmentModulePath opts)) = Inr environment"
      and "tokenize E \<lparr>getCode = source, getName = key, getResolvedName = None\<rparr> = Inr tokenStream"
      and "parse E tokenStream = Inr nodeModule"
      and "compile E nodeModule = Inr precompiledTemplate"
      and "\<forall>s \<in> set pre. \<forall>x. s \<noteq> VisitorSettles x"
    using assms(1) that(1,2) assms(2) that(3-6) by (rule precompile_delivers)
  have 3: "\<exists>renderedTemplate. m = renderedModule renderedTemplate"
    if "renderContext opts \<noteq> None"
      and "Inr m \<in> set (callbacks (twing_loader E this source schedule))"
  proof -
    from that(1) obtain ctx where "renderContext opts = Some ctx"
      by blast
    from render_final_module [OF assms(1) this c [OF that(2)]] show ?thesis .
  qed
  have 4: "callbacks (twing_loader E this source (pre @ RenderSettles (Inr renderedTemplate) # rest)) =
          [Inr (renderedModule renderedTemplate)]"
    if "renderContext opts \<noteq> None"
      and "require E (slash E (environmentModulePath opts)) = Inr environment"
      and "setLoader E (TwingLoaderChain
          [PathSupportingArrayLoader [slash E (lc_resourcePath this) \<mapsto> source],
           env_loader environment]) = None"
      and "\<forall>s \<in> set pre. \<forall>x. s \<noteq> RenderSettles x"
      and "list_all isFulfilled
          (take (length (addDependencyTasks (twing_loader E this source pre)))
            (addDependencyTasks
              (twing_loader E this source (pre @ RenderSettles (Inr renderedTemplate) # rest))))"
  proof -
    from that(1) obtain ctx where "renderContext opts = Some ctx"
      by blast
    with assms(1) show ?thesis
      using that(2-5) by (rule render_delivers)
  qed
  have 5: "\<forall>e c d k r. precompiledModule e c d k \<noteq> renderedModule r"
    by (simp add: shapes_differ)
  have 6: "\<forall>r. renderedModule r = js ''module.exports = '' @ JSON_stringify r @ js '';''"
    by (simp add: renderedModule_def)
  have 7: "\<forall>e c d k. precompiledModule e c d k =
        concat (map (\<lambda>p. p @ js ''\<newline>'')
          ([js ''const env = require('' @ [sq] @ e @ js ''');'',
            js ''\<newline>                    const templatesModule = (() => {\<newline>                    const module = {\<newline>                        exports: undefined\<newline>                    };\<newline>\<newline>                    '' @ c @ js ''\<newline>\<newline>                    return module.exports;\<newline>                    })();\<newline>                '']
           @ map (\<lambda>n. js ''require('' @ [sq] @ n @ js ''');'') d
           @ [js ''env.registerTemplatesModule(templatesModule, '' @ [sq] @ k @ js ''');'']))
        @ js ''\<newline>                    const renderTemplate = (context = {}) => {\<newline>                      const name = '' @ [sq] @ k @ js ''';\<newline>                      env.emit('template', name);\<newline>                      const template = env.loadedTemplates.get(name);\<newline>                      return template.render(context);\<newline>                    };\<newline>\<newline>                    module.exports = renderTemplate;\<newline>                ''"
  proof (intro allI)
    fix e c d k
    show "precompiledModule e c d k =
        concat (map (\<lambda>p. p @ js ''\<newline>'')
          ([js ''const env = require('' @ [sq] @ e @ js ''');'',
            js ''\<newline>                    const templatesModule = (() => {\<newline>                    const module = {\<newline>                        exports: undefined\<newline>                    };\<newline>\<newline>                    '' @ c @ js ''\<newline>\<newline>                    return module.exports;\<newline>                    })();\<newline>                '']
           @ map (\<lambda>n. js ''require('' @ [sq] @ n @ js ''');'') d
           @ [js ''env.registerTemplatesModule(templatesModule, '' @ [sq] @ k @ js ''');'']))
        @ js ''\<newline>                    const renderTemplate = (context = {}) => {\<newline>                      const name = '' @ [sq] @ k @ js ''';\<newline>                      env.emit('template', name);\<newline>                      const template = env.loadedTemplates.get(name);\<newline>                      return template.render(context);\<newline>                    };\<newline>\<newline>                    module.exports = renderTemplate;\<newline>                ''"
      using precompiledModule_text [of e c d k]
      unfolding envRequire_def templatesModule_def depRequire_def registerTemplatesModule_def
        renderTemplate_def .
  qed
  from 1 2 have a: "(renderContext opts = None \<longrightarrow>
       (Inr m \<in> set (callbacks (twing_loader E this source schedule)) \<longrightarrow>
          (\<exists>code names. m = precompiledModule (slash E (environmentModulePath opts)) code
             (map (slash E) names) key)) \<and>
       (require E (slash E (environmentModulePath opts)) = Inr environment \<and>
        tokenize E \<lparr>getCode = source, getName = key, getResolvedName = None\<rparr> = Inr tokenStream \<and>
        parse E tokenStream = Inr nodeModule \<and>
        compile E nodeModule = Inr precompiledTemplate \<and>
        (\<forall>s \<in> set pre. \<forall>x. s \<noteq> VisitorSettles x) \<longrightarrow>
        callbacks (twing_loader E this source (pre @ VisitorSettles (Inr names) # rest)) =
          [Inr (precompiledModule (slash E (environmentModulePath opts)) precompiledTemplate
             (map (slash E) names) key)]))"
    by blast
  from 3 4 have b: "(renderContext opts \<noteq> None \<longrightarrow>
       (Inr m \<in> set (callbacks (twing_loader E this source schedule)) \<longrightarrow>
          (\<exists>renderedTemplate. m = renderedModule renderedTemplate)) \<and>
       (require E (slash E (environmentModulePath opts)) = Inr environment \<and>
        setLoader E (TwingLoaderChain
          [PathSupportingArrayLoader [slash E (lc_resourcePath this) \<mapsto> source],
           env_loader environment]) = None \<and>
        (\<forall>s \<in> set pre. \<forall>x. s \<noteq> RenderSettles x) \<and>
        list_all isFulfilled
          (take (length (addDependencyTasks (twing_loader E this source pre)))
            (addDependencyTasks
              (twing_loader E this source (pre @ RenderSettles (Inr renderedTemplate) # rest)))) \<longrightarrow>
        callbacks (twing_loader E this source (pre @ RenderSettles (Inr renderedTemplate) # rest)) =
          [Inr (renderedModule renderedTemplate)]))"
    by blast
  show ?thesis
    by (intro conjI) (fact a b 5 6 7)+
qed

theorem mode_selection_witness:
  "Inr (precompiledModule (js ''/env.js'') (js ''/* compiled */'') [js ''/t/b.twig'']
      (js ''/t/a.twig''))
     \<in> set (callbacks (twing_loader sampleEngine (sampleContext None) (js ''hello'')
          [VisitorSettles (Inr [js ''/t/b.twig''])])) \<and>
   (\<exists>code names.
      precompiledModule (js ''/env.js'') (js ''/* compiled */'') [js ''/t/b.twig'']
        (js ''/t/a.twig'') =
      precompiledModule (js ''/env.js'') code (map (slash sampleEngine) names) (js ''/t/a.twig'')) \<and>
   callbacks (twing_loader sampleEngine (sampleContext None) (js ''hello'')
      ([RenderSettles (Inr (js ''zz''))] @ VisitorSettles (Inr [js ''/t/b.twig''])
         # [VisitorSettles (Inr [])])) =
     [Inr (precompiledModule (js ''/env.js'') (js ''/* compiled */'') [js ''/t/b.twig'']
        (js ''/t/a.twig''))] \<and>
   Inr (renderedModule (js ''hi''))
     \<in> set (callbacks (twing_loader sampleEngine (sampleContext (Some Map.empty)) (js ''hello'')
          [Emit (js ''x'') noSource, RenderSettles (Inr (js ''hi'')),
           Emit (js ''y'') noSource, ResolveSettles 0 (Inr (js ''/x''))])) \<and>
   (\<exists>renderedTemplate. renderedModule (js ''hi'') = renderedModule renderedTemplate) \<and>
   list_all isFulfilled
     (take (length (addDependencyTasks
         (twing_loader sampleEngine (sampleContext (Some Map.empty)) (js ''hello'')
            [Emit (js ''x'') noSource])))
       (addDependencyTasks
         (twing_loader sampleEngine (sampleContext (Some Map.empty)) (js ''hello'')
            ([Emit (js ''x'') noSource] @ RenderSettles (Inr (js ''hi''))
               # [Emit (js ''y'') noSource, ResolveSettles 0 (Inr (js ''/x''))])))) \<and>
   callbacks (twing_loader sampleEngine (sampleContext (Some Map.empty)) (js ''hello'')
      ([Emit (js ''x'') noSource] @ RenderSettles (Inr (js ''hi''))
         # [Emit (js ''y'') noSource, ResolveSettles 0 (Inr (js ''/x''))])) =
     [Inr (renderedModule (js ''hi''))]"
proof -
  let ?m = "precompiledModule (js ''/env.js'') (js ''/* compiled */'') [js ''/t/b.twig'']
      (js ''/t/a.twig'')"
  let ?pc = "sampleContext None"
  let ?rc = "sampleContext (Some Map.empty)"
  have p1: "lc_options ?pc = Inr \<lparr>environmentModulePath = js ''/env.js'', renderContext = None\<rparr>"
    by simp
  have r1: "lc_options ?rc =
      Inr \<lparr>environmentModulePath = js ''/env.js'', renderContext = Some Map.empty\<rparr>"
    by simp
  have p2: "Inr ?m \<in> set (callbacks (twing_loader sampleEngine ?pc (js ''hello'')
          [VisitorSettles (Inr [js ''/t/b.twig''])]))"
    by (simp add: sample_precompile_callbacks)
  have p3: "require sampleEngine (slash sampleEngine (environmentModulePath
        \<lparr>environmentModulePath = js ''/env.js'', renderContext = None\<rparr>)) = Inr sampleEnvironment"
    by simp
  have p4: "tokenize sampleEngine \<lparr>getCode = js ''hello'', getName = js ''/t/a.twig'',
      getResolvedName = None\<rparr> = Inr (js ''hello'')"
    by (rule sample_tokenize)
  have p5: "parse sampleEngine (js ''hello'') = Inr (js ''hello'')"
    by simp
  have p6: "compile sampleEngine (js ''hello'') = Inr (js ''/* compiled */'')"
    by simp
  have p7: "\<forall>s \<in> set [RenderSettles (Inr (js ''zz''))]. \<forall>x. s \<noteq> VisitorSettles x"
    by simp
  have r2: "Inr (renderedModule (js ''hi''))
     \<in> set (callbacks (twing_loader sampleEngine ?rc (js ''hello'')
          [Emit (js ''x'') noSource, RenderSettles (Inr (js ''hi'')),
           Emit (js ''y'') noSource, ResolveSettles 0 (Inr (js ''/x''))]))"
    by (simp add: sample_render_run callbacks_eq)
  have r3: "require sampleEngine (slash sampleEngine (environmentModulePath
        \<lparr>environmentModulePath = js ''/env.js'', renderContext = Some Map.empty\<rparr>)) =
      Inr sampleEnvironment"
    by simp
  have r4: "setLoader sampleEngine (TwingLoaderChain
          [PathSupportingArrayLoader
             [slash sampleEngine (lc_resourcePath ?rc) \<mapsto> js ''hello''],
           env_loader sampleEnvironment]) = None"
    by simp
  have r5: "\<forall>s \<in> set [Emit (js ''x'') noSource]. \<forall>x. s \<noteq> RenderSettles x"
    by simp
  have n: "length (addDependencyTasks
         (twing_loader sampleEngine ?rc (js ''hello'') [Emit (js ''x'') noSource])) = 1"
    by (simp add: twing_loader_def sample_render_start step_def emit_def)
  have r6: "list_all isFulfilled
     (take (length (addDependencyTasks
         (twing_loader sampleEngine ?rc (js ''hello'') [Emit (js ''x'') noSource])))
       (addDependencyTasks
         (twing_loader sampleEngine ?rc (js ''hello'')
            ([Emit (js ''x'') noSource] @ RenderSettles (Inr (js ''hi''))
               # [Emit (js ''y'') noSource, ResolveSettles 0 (Inr (js ''/x''))]))))"
    unfolding n by (simp add: sample_render_run isFulfilled_def)
  note p = mode_selection [OF p1 sample_key, where source = "js ''hello''"
      and environment = sampleEnvironment and tokenStream = "js ''hello''"
      and nodeModule = "js ''hello''" and precompiledTemplate = "js ''/* compiled */''"
      and pre = "[RenderSettles (Inr (js ''zz''))]" and names = "[js ''/t/b.twig'']"
      and rest = "[VisitorSettles (Inr [])]" and m = ?m
      and schedule = "[VisitorSettles (Inr [js ''/t/b.twig''])]", THEN conjunct1, THEN mp]
  note r = mode_selection [OF r1 sample_key, where source = "js ''hello''"
      and environment = sampleEnvironment
      and pre = "[Emit (js ''x'') noSource]" and renderedTemplate = "js ''hi''"
      and rest = "[Emit (js ''y'') noSource, ResolveSettles 0 (Inr (js ''/x''))]"
      and m = "renderedModule (js ''hi'')"
      and schedule = "[Emit (js ''x'') noSource, RenderSettles (Inr (js ''hi'')),
           Emit (js ''y'') noSource, ResolveSettles 0 (Inr (js ''/x''))]",
      THEN conjunct2, THEN conjunct1, THEN mp]
  have pp: "renderContext \<lparr>environmentModulePath = js ''/env.js'', renderContext = None\<rparr> = None"
    by simp
  have rr: "renderContext \<lparr>environmentModulePath = js ''/env.js'',
      renderContext = Some (Map.empty :: jsstring \<rightharpoonup> jsstring)\<rparr> \<noteq> None"
    by simp
  from p [OF pp, THEN conjunct1, THEN mp, OF p2]
  have a: "\<exists>code names. ?m =
      precompiledModule (js ''/env.js'') code (map (slash sampleEngine) names) (js ''/t/a.twig'')"
    by simp
  from p [OF pp, THEN conjunct2, THEN mp, OF conjI [OF p3 conjI [OF p4 conjI [OF p5 conjI [OF p6 p7]]]]]
  have b: "callbacks (twing_loader sampleEngine ?pc (js ''hello'')
      ([RenderSettles (Inr (js ''zz''))] @ VisitorSettles (Inr [js ''/t/b.twig''])
         # [VisitorSettles (Inr [])])) = [Inr ?m]"
    by simp
  from r [OF rr, THEN conjunct1, THEN mp, OF r2]
  have c: "\<exists>renderedTemplate. renderedModule (js ''hi'') = renderedModule renderedTemplate" .
  from r [OF rr, THEN conjunct2, THEN mp, OF conjI [OF r3 conjI [OF r4 conjI [OF r5 r6]]]]
  have d: "callbacks (twing_loader sampleEngine ?rc (js ''hello'')
      ([Emit (js ''x'') noSource] @ RenderSettles (Inr (js ''hi''))
         # [Emit (js ''y'') noSource, ResolveSettles 0 (Inr (js ''/x''))])) =
     [Inr (renderedModule (js ''hi''))]" .
  show ?thesis
    by (intro conjI) (fact p2 a b r2 c r6 d)+
qed

text \<open>
  C8, as amended. In precompile mode, when the tokenizer or the parser throws, the
  callback is called exactly once, with the error and no module text, whatever the
  schedule, and exactly one dependency has been declared: the environment module path,
  declared before the template is read. In render mode the template is read inside the
  render call; when the render promise is rejected the callback is called exactly once,
  with the error, and the declared dependencies start with the environment module path.
\<close>

theorem parse_failure_reported:
  assumes "lc_options this = Inr opts"
    and "require E (slash E (environmentModulePath opts)) = Inr environment"
    and "key = getTemplateHash (sha256 E) (lc_mode this) (slash E (lc_resourcePath this))"
    and "sourceContext = \<lparr>getCode = source, getName = key, getResolvedName = None\<rparr>"
  shows "(renderContext opts = None \<and>
      (tokenize E sourceContext = Inl e \<or>
       (\<exists>tokenStream. tokenize E sourceContext = Inr tokenStream \<and> parse E tokenStream = Inl e)) \<longrightarrow>
        callbacks (twing_loader E this source schedule) = [Inl e] \<and>
        dependencies (twing_loader E this source schedule) =
          [slash E (environmentModulePath opts)]) \<and>
     (renderContext opts \<noteq> None \<and>
      setLoader E (TwingLoaderChain
        [PathSupportingArrayLoader [slash E (lc_resourcePath this) \<mapsto> source],
         env_loader environment]) = None \<and>
      (\<forall>s \<in> set pre. \<forall>r. s \<noteq> RenderSettles r) \<longrightarrow>
        callbacks (twing_loader E this source (pre @ RenderSettles (Inl e) # rest)) = [Inl e] \<and>
        (\<exists>ds. dependencies (twing_loader E this source (pre @ RenderSettles (Inl e) # rest)) =
           slash E (environmentModulePath opts) # ds))"
proof -
  have 1: "callbacks (twing_loader E this source schedule) = [Inl e] \<and>
        dependencies (twing_loader E this source schedule) =
          [slash E (environmentModulePath opts)]"
    if n: "renderContext opts = None"
      and t: "tokenize E sourceContext = Inl e \<or>
       (\<exists>tokenStream. tokenize E sourceContext = Inr tokenStream \<and> parse E tokenStream = Inl e)"
  proof -
    note s = start_precompile_failure [OF assms(1) n assms(2-4) t]
    from s have "run E (start E this source) schedule = start E this source"
      by (intro run_quiet) simp_all
    with s show ?thesis
      by (simp add: twing_loader_def callbacks_eq dependencies_eq)
  qed
  have 2: "callbacks (twing_loader E this source (pre @ RenderSettles (Inl e) # rest)) = [Inl e] \<and>
        (\<exists>ds. dependencies (twing_loader E this source (pre @ RenderSettles (Inl e) # rest)) =
           slash E (environmentModulePath opts) # ds)"
    if c: "renderContext opts \<noteq> None"
      and l: "setLoader E (TwingLoaderChain
        [PathSupportingArrayLoader [slash E (lc_resourcePath this) \<mapsto> source],
         env_loader environment]) = None"
      and p: "\<forall>s \<in> set pre. \<forall>r. s \<noteq> RenderSettles r"
  proof -
    from c obtain ctx where c': "renderContext opts = Some ctx"
      by auto
    show ?thesis
      by (rule render_rejected [OF assms(1) c' assms(2) l p])
  qed
  from 1 2 show ?thesis
    by blast
qed

theorem parse_failure_reported_witness:
  "tokenize sampleEngine \<lparr>getCode = js ''{% if'', getName = js ''/t/a.twig'',
      getResolvedName = None\<rparr> = Inl (Error ''Unexpected end of template'') \<and>
   callbacks (twing_loader sampleEngine (sampleContext None) (js ''{% if'')
     [VisitorSettles (Inr [])]) = [Inl (Error ''Unexpected end of template'')] \<and>
   dependencies (twing_loader sampleEngine (sampleContext None) (js ''{% if'')
     [VisitorSettles (Inr [])]) = [js ''/env.js''] \<and>
   setLoader sampleEngine sampleChain = None \<and>
   callbacks (twing_loader sampleEngine (sampleContext (Some Map.empty)) (js ''hello'')
     ([Emit (js ''x'') noSource] @ RenderSettles (Inl (Error ''Unexpected end of template'')) # [])) =
     [Inl (Error ''Unexpected end of template'')] \<and>
   (\<exists>ds. dependencies (twing_loader sampleEngine (sampleContext (Some Map.empty)) (js ''hello'')
     ([Emit (js ''x'') noSource] @ RenderSettles (Inl (Error ''Unexpected end of template'')) # [])) =
     js ''/env.js'' # ds)"
proof -
  have p1: "lc_options (sampleContext None) =
      Inr \<lparr>environmentModulePath = js ''/env.js'', renderContext = None\<rparr>"
    by simp
  have r1: "lc_options (sampleContext (Some Map.empty)) =
      Inr \<lparr>environmentModulePath = js ''/env.js'', renderContext = Some Map.empty\<rparr>"
    by simp
  have q: "\<And>rc. require sampleEngine (slash sampleEngine (environmentModulePath
      \<lparr>environmentModulePath = js ''/env.js'', renderContext = rc\<rparr>)) = Inr sampleEnvironment"
    by simp
  have l: "setLoader sampleEngine sampleChain = None"
    by simp
  have l': "setLoader sampleEngine (TwingLoaderChain
      [PathSupportingArrayLoader
         [slash sampleEngine (lc_resourcePath (sampleContext (Some Map.empty))) \<mapsto> js ''hello''],
       env_loader sampleEnvironment]) = None"
    by simp
  have n: "\<forall>s \<in> set [Emit (js ''x'') noSource]. \<forall>r. s \<noteq> RenderSettles r"
    by simp
  note a = parse_failure_reported [OF p1 q sample_key refl,
      where source = "js ''{% if''" and e = "Error ''Unexpected end of template''"
        and schedule = "[VisitorSettles (Inr [])]",
      THEN conjunct1, THEN mp]
  note b = parse_failure_reported [OF r1 q sample_key refl,
      where source = "js ''hello''" and pre = "[Emit (js ''x'') noSource]"
        and e = "Error ''Unexpected end of template''" and rest = "[]",
      THEN conjunct2, THEN mp]
  have 1: "callbacks (twing_loader sampleEngine (sampleContext None) (js ''{% if'')
       [VisitorSettles (Inr [])]) = [Inl (Error ''Unexpected end of template'')] \<and>
     dependencies (twing_loader sampleEngine (sampleContext None) (js ''{% if'')
       [VisitorSettles (Inr [])]) = [js ''/env.js'']"
    using a sample_failing_tokenize by simp
  have 2: "callbacks (twing_loader sampleEngine (sampleContext (Some Map.empty)) (js ''hello'')
     ([Emit (js ''x'') noSource] @ RenderSettles (Inl (Error ''Unexpected end of template'')) # [])) =
     [Inl (Error ''Unexpected end of template'')] \<and>
   (\<exists>ds. dependencies (twing_loader sampleEngine (sampleContext (Some Map.empty)) (js ''hello'')
     ([Emit (js ''x'') noSource] @ RenderSettles (Inl (Error ''Unexpected end of template'')) # [])) =
     js ''/env.js'' # ds)"
    using b l' n by simp
  from 1 2 l sample_failing_tokenize show ?thesis
    by blast
qed

text \<open>
  C8 as stated fails in its last part: for the unterminated tag below the tokenizer
  throws, the callback receives the error, and one dependency has been declared, not
  none.
\<close>

theorem parse_failure_dependency:
  "tokenize sampleEngine \<lparr>getCode = js ''{% if'', getName = js ''/t/a.twig'',
      getResolvedName = None\<rparr> = Inl (Error ''Unexpected end of template'') \<and>
   callbacks (twing_loader sampleEngine (sampleContext None) (js ''{% if'') []) =
     [Inl (Error ''Unexpected end of template'')] \<and>
   dependencies (twing_loader sampleEngine (sampleContext None) (js ''{% if'') []) =
     [js ''/env.js''] \<and>
   length (dependencies (twing_loader sampleEngine (sampleContext None) (js ''{% if'') [])) = 1"
proof -
  have p1: "lc_options (sampleContext None) =
      Inr \<lparr>environmentModulePath = js ''/env.js'', renderContext = None\<rparr>"
    by simp
  have p2: "renderContext \<lparr>environmentModulePath = js ''/env.js'',
      renderContext = (None :: (jsstring \<rightharpoonup> jsstring) option)\<rparr> = None"
    by simp
  have q: "require sampleEngine (slash sampleEngine (environmentModulePath
      \<lparr>environmentModulePath = js ''/env.js'',
        renderContext = (None :: (jsstring \<rightharpoonup> jsstring) option)\<rparr>)) = Inr sampleEnvironment"
    by simp
  note s = start_precompile_failure [OF p1 p2 q sample_key refl disjI1,
      OF sample_failing_tokenize]
  then show ?thesis
    by (simp add: twing_loader_def callbacks_eq dependencies_eq sample_failing_tokenize)
qed

section \<open>The string literal round trip\<close>

lemma hexValue_hexDigit_all: "\<forall>n \<in> set [0..<16]. hexValue (hexDigit n) = Some n"
  by code_simp

lemma hexValue_hexDigit: "n < 16 \<Longrightarrow> hexValue (hexDigit n) = Some n"
  using hexValue_hexDigit_all by simp

lemma nibble_low: "unat ((w :: 16 word) AND 0x0f) = unat w mod 16"
proof -
  have "w AND 0x0f = take_bit 4 w"
    by (simp add: take_bit_eq_mask mask_eq_exp_minus_1)
  then have "unat (w AND 0x0f) = take_bit 4 (unat w)"
    by (simp add: unsigned_take_bit_eq)
  then show ?thesis
    by (simp add: take_bit_eq_mod)
qed

lemma unat_drop_bit_16: "unat (drop_bit k (w :: 16 word)) = unat w div 2 ^ k"
proof -
  have "unat (drop_bit k w) = drop_bit k (unat w)"
    by (simp only: unat_drop_bit_eq)
  then show ?thesis
    by (simp add: drop_bit_eq_div)
qed

lemma unat_16_bound: "unat (w :: 16 word) < 65536"
  using unsigned_less [of w, where ?'a = nat] by simp

lemma digits_value:
  "((((n :: nat) div 4096) * 16 + (n div 256) mod 16) * 16 + (n div 16) mod 16) * 16 + n mod 16 = n"
proof -
  have a: "n div 256 = (n div 16) div 16"
    by (simp add: div_mult2_eq)
  have b: "n div 4096 = (n div 256) div 16"
    by (simp add: div_mult2_eq)
  have "(n div 4096) * 16 + (n div 256) mod 16 = n div 256"
    unfolding b by simp
  then have "((n div 4096) * 16 + (n div 256) mod 16) * 16 + (n div 16) mod 16 = n div 16"
    unfolding a by simp
  then show ?thesis
    by simp
qed

lemma hex4Value_UnicodeEscape:
  "UnicodeEscape c @ after = bs # 0x75 # h1 # h2 # h3 # h4 # rest \<Longrightarrow>
   hex4Value h1 h2 h3 h4 = Some c \<and> rest = after"
proof -
  assume a: "UnicodeEscape c @ after = bs # 0x75 # h1 # h2 # h3 # h4 # rest"
  have t: "unat c div 4096 < 16"
    using unat_16_bound [of c] by simp
  from a have h: "h1 = hexDigit (unat c div 4096)" "h2 = hexDigit ((unat c div 256) mod 16)"
    "h3 = hexDigit ((unat c div 16) mod 16)" "h4 = hexDigit (unat c mod 16)" "rest = after"
    using unat_drop_bit_16 [of 12 c] unat_drop_bit_16 [of 8 c] unat_drop_bit_16 [of 4 c]
    by (simp_all add: UnicodeEscape_def nibble_low)
  have "hex4Value h1 h2 h3 h4 =
      Some (of_nat ((((unat c div 4096) * 16 + (unat c div 256) mod 16) * 16
        + (unat c div 16) mod 16) * 16 + unat c mod 16))"
    unfolding h hex4Value_def
    by (simp only: hexValue_hexDigit t mod_less_divisor zero_less_numeral prod.case option.case)
  then have "hex4Value h1 h2 h3 h4 = Some (of_nat (unat c))"
    by (simp only: digits_value)
  with h show ?thesis by simp
qed


lemma hex4Value_digits:
  "hex4Value (hexDigit (unat (drop_bit 12 c))) (hexDigit (unat (drop_bit 8 c AND 0x0f)))
     (hexDigit (unat (drop_bit 4 c AND 0x0f))) (hexDigit (unat (c AND 0x0f))) = Some c"
  using hex4Value_UnicodeEscape [of c "[]"] by (simp add: UnicodeEscape_def)

lemma stringLiteralBody_raw:
  "c \<noteq> dq \<Longrightarrow> c \<noteq> bs \<Longrightarrow> c \<noteq> 0x0A \<Longrightarrow> c \<noteq> 0x0D \<Longrightarrow>
   stringLiteralBody (c # cs) = prepend c (stringLiteralBody cs)"
  by simp

lemma stringLiteralBody_escape:
  "singleEscape e = Some v \<Longrightarrow> e \<noteq> 0x75 \<Longrightarrow>
   stringLiteralBody (bs # e # cs) = prepend v (stringLiteralBody cs)"
  by (simp add: bs_def dq_def)

lemma stringLiteralBody_unicode:
  "stringLiteralBody (UnicodeEscape c @ cs) = prepend c (stringLiteralBody cs)"
  by (simp add: UnicodeEscape_def hex4Value_digits bs_def dq_def)

lemma surrogate_raw:
  assumes "isLeadingSurrogate c \<or> isTrailingSurrogate c"
  shows "c \<noteq> dq" and "c \<noteq> bs" and "c \<noteq> 0x0A" and "c \<noteq> 0x0D"
  using assms by (auto simp: isLeadingSurrogate_def isTrailingSurrogate_def dq_def bs_def)

lemma stringLiteralBody_unit:
  "stringLiteralBody (QuoteJSONUnit c @ cs) = prepend c (stringLiteralBody cs)"
proof -
  consider "c = 0x08" | "c = 0x09" | "c = 0x0A" | "c = 0x0C" | "c = 0x0D" | "c = 0x22" | "c = 0x5C"
    | "c \<notin> {0x08, 0x09, 0x0A, 0x0C, 0x0D, 0x22, 0x5C}"
        "c < 0x20 \<or> isLeadingSurrogate c \<or> isTrailingSurrogate c"
    | "c \<notin> {0x08, 0x09, 0x0A, 0x0C, 0x0D, 0x22, 0x5C}"
        "\<not> (c < 0x20 \<or> isLeadingSurrogate c \<or> isTrailingSurrogate c)"
    by blast
  then show ?thesis
  proof cases
    case 8
    then have "QuoteJSONUnit c = UnicodeEscape c"
      by (simp add: QuoteJSONUnit_def)
    then show ?thesis
      by (simp only: stringLiteralBody_unicode)
  next
    case 9
    then have q: "QuoteJSONUnit c = [c]"
      by (simp add: QuoteJSONUnit_def)
    from 9 have "c \<noteq> dq" "c \<noteq> bs" "c \<noteq> 0x0A" "c \<noteq> 0x0D"
      by (simp_all add: dq_def bs_def)
    then show ?thesis
      unfolding q append_Cons append_Nil by (rule stringLiteralBody_raw)
  qed (simp_all add: QuoteJSONUnit_def stringLiteralBody_escape singleEscape_def,
      simp_all add: bs_def dq_def singleEscape_def)
qed

lemma prepend_Some: "prepend c (Some (v, rest)) = Some (c # v, rest)"
  by (simp add: prepend_def)

lemma stringLiteralBody_QuoteJSONBody:
  "stringLiteralBody (QuoteJSONBody s @ dq # rest) = Some (s, rest)"
proof (induction s rule: QuoteJSONBody.induct)
  case 1
  show ?case by simp
next
  case (2 c)
  have "stringLiteralBody (QuoteJSONUnit c @ dq # rest) = prepend c (stringLiteralBody (dq # rest))"
    by (rule stringLiteralBody_unit)
  also have "stringLiteralBody (dq # rest) = Some ([], rest)"
    by simp
  finally show ?case
    by (simp only: QuoteJSONBody.simps prepend_Some)
next
  case (3 c d ds)
  show ?case
  proof (cases "isLeadingSurrogate c \<and> isTrailingSurrogate d")
    case True
    then have e: "QuoteJSONBody (c # d # ds) @ dq # rest = c # d # QuoteJSONBody ds @ dq # rest"
      by simp
    from True have c: "stringLiteralBody (c # d # QuoteJSONBody ds @ dq # rest) =
        prepend c (stringLiteralBody (d # QuoteJSONBody ds @ dq # rest))"
      by (intro stringLiteralBody_raw surrogate_raw) simp_all
    from True have d: "stringLiteralBody (d # QuoteJSONBody ds @ dq # rest) =
        prepend d (stringLiteralBody (QuoteJSONBody ds @ dq # rest))"
      by (intro stringLiteralBody_raw surrogate_raw) simp_all
    from True 3(1) have i: "stringLiteralBody (QuoteJSONBody ds @ dq # rest) = Some (ds, rest)"
      by simp
    show ?thesis
      by (simp only: e c d i prepend_Some)
  next
    case False
    then have e: "QuoteJSONBody (c # d # ds) @ dq # rest =
        QuoteJSONUnit c @ QuoteJSONBody (d # ds) @ dq # rest"
      by auto
    from False 3(2) have i: "stringLiteralBody (QuoteJSONBody (d # ds) @ dq # rest) =
        Some (d # ds, rest)"
      by simp
    show ?thesis
      by (simp only: e stringLiteralBody_unit i prepend_Some)
  qed
qed

lemma evalModule_renderedModule: "evalModule (renderedModule r) = Some r"
proof -
  have l: "length (js ''module.exports = '') = 17"
    by (simp add: js_def)
  have "stringLiteralBody (QuoteJSONBody r @ dq # js '';'') = Some (r, js '';'')"
    by (rule stringLiteralBody_QuoteJSONBody)
  then show ?thesis
    by (simp add: evalModule_def renderedModule_def JSON_stringify_def l)
qed

text \<open>
  C7. In render mode, a module text that reaches the callback is the single statement
  \<open>module.exports = L;\<close> where \<open>L\<close> is the \<open>JSON.stringify\<close>
  encoding of the string the render promise was fulfilled with, and reading that
  literal back gives exactly that string, code unit for code unit, whatever quotes,
  line breaks, control characters or surrogates it contains.
\<close>

theorem rendered_text_round_trip:
  assumes "lc_options this = Inr opts" and "renderContext opts = Some ctx"
    and "suffix (Callback (Inr m) # earlier) (log (twing_loader E this source schedule))"
  shows "\<exists>renderedTemplate.
     RenderFulfilled renderedTemplate \<in> set earlier \<and>
     m = js ''module.exports = '' @ JSON_stringify renderedTemplate @ js '';'' \<and>
     evalModule m = Some renderedTemplate"
proof -
  from render_final_joined [OF assms(1,2), of E source schedule] assms(3)
  obtain renderedTemplate before
    where s: "suffix (RenderFulfilled renderedTemplate # before) earlier"
      and m: "m = renderedModule renderedTemplate"
    unfolding joined_def by blast
  from s have "RenderFulfilled renderedTemplate \<in> set earlier"
    by (auto simp: suffix_def)
  moreover from m have "m = js ''module.exports = '' @ JSON_stringify renderedTemplate @ js '';''"
    by (simp add: renderedModule_def)
  moreover from m have "evalModule m = Some renderedTemplate"
    by (simp add: evalModule_renderedModule)
  ultimately show ?thesis
    by blast
qed

theorem rendered_text_round_trip_witness:
  "lc_options (sampleContext (Some Map.empty)) =
     Inr \<lparr>environmentModulePath = js ''/env.js'', renderContext = Some Map.empty\<rparr> \<and>
   suffix
     (Callback (Inr (renderedModule [0x61, 0x22, 0x0A, 0x5C, 0xE9, 0xD83D, 0xDE00, 0xD800, 0x2028])) #
      [RenderFulfilled [0x61, 0x22, 0x0A, 0x5C, 0xE9, 0xD83D, 0xDE00, 0xD800, 0x2028],
       Render (js ''/t/a.twig''),
       On (js ''template'') (AddDependencyHandler sampleChain), SetLoader sampleChain,
       AddDependency (js ''/env.js'')])
     (log (twing_loader sampleEngine (sampleContext (Some Map.empty)) (js ''hello'')
        [RenderSettles (Inr [0x61, 0x22, 0x0A, 0x5C, 0xE9, 0xD83D, 0xDE00, 0xD800, 0x2028])])) \<and>
   evalModule (renderedModule [0x61, 0x22, 0x0A, 0x5C, 0xE9, 0xD83D, 0xDE00, 0xD800, 0x2028]) =
     Some [0x61, 0x22, 0x0A, 0x5C, 0xE9, 0xD83D, 0xDE00, 0xD800, 0x2028]"
proof -
  let ?r = "[0x61, 0x22, 0x0A, 0x5C, 0xE9, 0xD83D, 0xDE00, 0xD800, 0x2028] :: jsstring"
  let ?earlier = "[RenderFulfilled ?r, Render (js ''/t/a.twig''),
       On (js ''template'') (AddDependencyHandler sampleChain), SetLoader sampleChain,
       AddDependency (js ''/env.js'')]"
  let ?opts = "\<lparr>environmentModulePath = js ''/env.js'',
    renderContext = Some (Map.empty :: jsstring \<rightharpoonup> jsstring)\<rparr>"
  have h1: "lc_options (sampleContext (Some Map.empty)) = Inr ?opts"
    by simp
  have h2: "renderContext ?opts = Some Map.empty"
    by simp
  have l: "log (twing_loader sampleEngine (sampleContext (Some Map.empty)) (js ''hello'')
        [RenderSettles (Inr ?r)]) = Callback (Inr (renderedModule ?r)) # ?earlier"
    by (simp add: twing_loader_def sample_render_start step_def awaitAll_def emit_def
        callback_def)
  have h3: "suffix (Callback (Inr (renderedModule ?r)) # ?earlier)
     (log (twing_loader sampleEngine (sampleContext (Some Map.empty)) (js ''hello'')
        [RenderSettles (Inr ?r)]))"
    unfolding l by simp
  from rendered_text_round_trip [OF h1 h2 h3]
  have "evalModule (renderedModule ?r) = Some ?r"
    by auto
  with h1 h3 show ?thesis
    by blast
qed

end
